theory Spec2Isabelle
  imports Main "HOL-Library.Sublist" "HOL-Library.Multiset" "HOL-Library.List_Lexorder"
    "HOL-Library.Char_ord"
begin

section \<open>Values of the runtime\<close>

text \<open>
  A rejected promise carries an error object. \<open>fetch\<close> rejects with a \<open>TypeError\<close> when the
  network fails, \<open>response.json()\<close> rejects with a \<open>SyntaxError\<close> when the body is not JSON,
  and the dashboard API throws \<open>new Error(message)\<close> itself.
\<close>

datatype error = Error string | TypeError string | SyntaxError string

text \<open>
  The outcome of \<open>await fetch(...)\<close>: either the promise rejects (\<open>Inl\<close>), or it resolves to a
  response with its \<open>ok\<close> flag (status in 200..299) and the outcome of \<open>response.json()\<close>.
\<close>

datatype 'a response = Response (ok: bool) (json: "error + 'a")

type_synonym 'a fetch_result = "error + 'a response"

text \<open>
  A number is an integer or \<open>NaN\<close>, which is \<open>None\<close>. A difference one side of which is
  \<open>NaN\<close> is \<open>NaN\<close>.
\<close>

type_synonym number = "int option"

definition minus_number :: "number \<Rightarrow> number \<Rightarrow> number" where
  "minus_number x y =
     (case x of None \<Rightarrow> None | Some a \<Rightarrow> (case y of None \<Rightarrow> None | Some b \<Rightarrow> Some (a - b)))"

text \<open>
  \<open>Number.prototype.toString()\<close> on an integer: its decimal digits, with a minus sign when
  negative.
\<close>

fun digits :: "nat \<Rightarrow> string" where
  "digits n = (if n < 10 then [''0123456789'' ! n] else digits (n div 10) @ [''0123456789'' ! (n mod 10)])"

declare digits.simps [simp del]

definition toString :: "int \<Rightarrow> string" where
  "toString n = (if n < 0 then CHR ''-'' # digits (nat (- n)) else digits (nat n))"

text \<open>
  A string is the list of its characters. \<open>String.prototype.toLowerCase\<close> is the
  runtime's: its folding of the cased letters of a string is the parameter \<open>lowerCase\<close>, and
  the empty string, which has none, is mapped to itself.
\<close>

definition toLowerCase :: "(string \<Rightarrow> string) \<Rightarrow> string \<Rightarrow> string" where
  "toLowerCase lowerCase s = (if s = [] then [] else lowerCase s)"

text \<open>\<open>s.includes(t)\<close>: \<open>t\<close> occurs in \<open>s\<close> at some position.\<close>

fun includes_s :: "string \<Rightarrow> string \<Rightarrow> bool" where
  "includes_s [] t = (t = [])"
| "includes_s (c # s) t = (prefix t (c # s) \<or> includes_s s t)"

text \<open>
  \<open>Array.prototype.sort(compare)\<close>. The comparator answers with a number \<open>v\<close>, which the
  sort reads as \<open>+0\<close> when it is \<open>NaN\<close>; \<open>a\<close> comes before \<open>b\<close> when \<open>v < 0\<close>, after it
  when \<open>v > 0\<close>, and the two count as equal when \<open>v = 0\<close>.
\<close>

definition order_of :: "number \<Rightarrow> int" where
  "order_of v = (case v of None \<Rightarrow> 0 | Some n \<Rightarrow> n)"

text \<open>
  The language fixes the result of the sort for a comparator that is consistent on the
  elements of the array: its answer is never \<open>NaN\<close>, every element equals itself,
  equality is symmetric, and equality, coming before and coming after are transitive.
\<close>

definition consistent :: "('a \<Rightarrow> 'a \<Rightarrow> number) \<Rightarrow> 'a list \<Rightarrow> bool" where
  "consistent compare xs =
     (list_all (\<lambda>a. list_all (\<lambda>b. compare a b \<noteq> None) xs) xs
      \<and> list_all (\<lambda>a. order_of (compare a a) = 0) xs
      \<and> list_all (\<lambda>a. list_all (\<lambda>b.
            order_of (compare a b) = 0 \<longrightarrow> order_of (compare b a) = 0) xs) xs
      \<and> list_all (\<lambda>a. list_all (\<lambda>b. list_all (\<lambda>c.
            (order_of (compare a b) = 0 \<and> order_of (compare b c) = 0 \<longrightarrow>
               order_of (compare a c) = 0)
          \<and> (order_of (compare a b) < 0 \<and> order_of (compare b c) < 0 \<longrightarrow>
               order_of (compare a c) < 0)
          \<and> (order_of (compare a b) > 0 \<and> order_of (compare b c) > 0 \<longrightarrow>
               order_of (compare a c) > 0)) xs) xs) xs)"

text \<open>
  For a consistent comparator the result is the elements in ascending order, those that
  count as equal in the order they had: what inserting each element before the first one
  it does not come after yields.
\<close>

fun sort_insert :: "('a \<Rightarrow> 'a \<Rightarrow> int) \<Rightarrow> 'a \<Rightarrow> 'a list \<Rightarrow> 'a list" where
  "sort_insert order a [] = [a]"
| "sort_insert order a (b # bs) =
     (if order a b \<le> 0 then a # b # bs else b # sort_insert order a bs)"

definition stable_sort :: "('a \<Rightarrow> 'a \<Rightarrow> int) \<Rightarrow> 'a list \<Rightarrow> 'a list" where
  "stable_sort order xs = foldr (sort_insert order) xs []"

text \<open>
  For any other comparator the language leaves the order to the implementation:
  \<open>engine\<close> is what the engine at hand then makes of the array.
\<close>

definition array_sort ::
  "(('a \<Rightarrow> 'a \<Rightarrow> number) \<Rightarrow> 'a list \<Rightarrow> 'a list) \<Rightarrow> ('a \<Rightarrow> 'a \<Rightarrow> number) \<Rightarrow> 'a list \<Rightarrow> 'a list"
where
  "array_sort engine compare xs =
     (if consistent compare xs then stable_sort (\<lambda>a b. order_of (compare a b)) xs
      else engine compare xs)"

section \<open>The dashboard component\<close>

subsection \<open>Data\<close>

record patient =
  id_p :: string
  name :: string
  age :: number
  lastVisit :: string
  conditions :: "string list"
  isActive :: bool
  riskScore :: "number option"
  lastSync :: "string option"

datatype sort_mode = SortName | SortAge | SortLastVisit

datatype risk_level = low | medium | high

subsection \<open>Risk level\<close>

text \<open>
  \<open>Date.now()\<close> is the parameter \<open>now\<close> (milliseconds), and \<open>new Date(s).getTime()\<close> is the
  parameter \<open>getTime\<close>, which is \<open>None\<close> where the runtime yields \<open>NaN\<close> (an invalid date).
  Arithmetic on \<open>NaN\<close> is \<open>NaN\<close>, and every comparison with \<open>NaN\<close> is false.
\<close>

definition daysSinceVisit :: "int \<Rightarrow> (string \<Rightarrow> number) \<Rightarrow> patient \<Rightarrow> number" where
  "daysSinceVisit now getTime p =
     (case getTime (lastVisit p) of
        None \<Rightarrow> None
      | Some t \<Rightarrow> Some ((now - t) div (1000 * 60 * 60 * 24)))"

definition gt_number :: "number \<Rightarrow> int \<Rightarrow> bool" where
  "gt_number x n = (case x of None \<Rightarrow> False | Some d \<Rightarrow> d > n)"

definition ge_number :: "number \<Rightarrow> int \<Rightarrow> bool" where
  "ge_number x n = (case x of None \<Rightarrow> False | Some d \<Rightarrow> d \<ge> n)"

definition getPatientRiskLevel :: "int \<Rightarrow> (string \<Rightarrow> number) \<Rightarrow> patient \<Rightarrow> risk_level" where
  "getPatientRiskLevel now getTime p =
     (case riskScore p of
        Some r \<Rightarrow> (if ge_number r 70 then high else if ge_number r 40 then medium else low)
      | None \<Rightarrow>
          (if gt_number (daysSinceVisit now getTime p) 365 then high
           else if gt_number (daysSinceVisit now getTime p) 180 then medium
           else low))"

subsection \<open>Filtering and sorting\<close>

text \<open>The predicate of \<open>patients.filter\<close> in the filter-and-sort effect.\<close>

definition matchesSearch :: "(string \<Rightarrow> string) \<Rightarrow> string \<Rightarrow> patient \<Rightarrow> bool" where
  "matchesSearch lowerCase searchTerm p =
     (includes_s (toLowerCase lowerCase (name p)) (toLowerCase lowerCase searchTerm) \<or>
      list_ex (\<lambda>condition. includes_s (toLowerCase lowerCase condition) (toLowerCase lowerCase searchTerm))
        (conditions p))"


text \<open>
  The order of two numbers either of which may be \<open>NaN\<close> (\<open>None\<close>): \<open>x <= y\<close> is false
  as soon as one of them is \<open>NaN\<close>.
\<close>

definition le_number :: "number \<Rightarrow> number \<Rightarrow> bool" where
  "le_number x y =
     (case x of None \<Rightarrow> False | Some a \<Rightarrow> (case y of None \<Rightarrow> False | Some b \<Rightarrow> a \<le> b))"

text \<open>
  The comparator handed to \<open>filtered.sort\<close>. \<open>String.prototype.localeCompare\<close> is the
  runtime's collation, the parameter \<open>localeCompare\<close>; it answers with a number that is
  not \<open>NaN\<close>.
\<close>

definition comparePatients ::
  "(string \<Rightarrow> string \<Rightarrow> int) \<Rightarrow> (string \<Rightarrow> number) \<Rightarrow> sort_mode \<Rightarrow> patient \<Rightarrow> patient \<Rightarrow> number"
where
  "comparePatients localeCompare getTime sortBy a b =
     (if sortBy = SortName then Some (localeCompare (name a) (name b))
      else if sortBy = SortAge then minus_number (age a) (age b)
      else minus_number (getTime (lastVisit a)) (getTime (lastVisit b)))"

definition filteredPatients ::
  "((patient \<Rightarrow> patient \<Rightarrow> number) \<Rightarrow> patient list \<Rightarrow> patient list) \<Rightarrow> (string \<Rightarrow> string) \<Rightarrow>
   (string \<Rightarrow> string \<Rightarrow> int) \<Rightarrow> (string \<Rightarrow> number) \<Rightarrow> string \<Rightarrow> sort_mode \<Rightarrow> patient list \<Rightarrow>
   patient list"
where
  "filteredPatients engine lowerCase localeCompare getTime searchTerm sortBy patients =
     array_sort engine (comparePatients localeCompare getTime sortBy)
       (filter (matchesSearch lowerCase searchTerm) patients)"

subsection \<open>State, and the effects on the outside world\<close>

datatype api_call =
    PUT_status string bool
  | GET_risk_score string
  | POST_sync string

text \<open>
  The component's state variables, followed by a trace of what it did to the outside:
  the requests it sent, the calls of \<open>console.error\<close> (message and error object), the
  \<open>alert\<close>s and the calls of the \<open>onPatientUpdate\<close> callback. A handler reads the state
  committed by the render before it; updates written as \<open>setX(prev => ...)\<close> apply to the
  state at the time they run.
\<close>

record dashboard =
  patients :: "patient list"
  loading :: bool
  loadingRisk :: "string set"
  syncingPatients :: "string set"
  fetch_calls :: "api_call list"
  console_error :: "(string \<times> error) list"
  alerts :: "string list"
  onPatientUpdate :: "patient list"

definition totalPatients :: "patient list \<Rightarrow> nat" where
  "totalPatients ps = length ps"

subsection \<open>The dashboard API\<close>

text \<open>Each function of \<open>patientApi\<close>, as a function of the outcome of its \<open>fetch\<close>.\<close>

definition updatePatientStatus :: "patient fetch_result \<Rightarrow> error + patient" where
  "updatePatientStatus r =
     (case r of
        Inl e \<Rightarrow> Inl e
      | Inr response \<Rightarrow>
          if \<not> ok response then Inl (Error ''Failed to update patient status'')
          else json response)"

definition fetchRiskScore :: "number fetch_result \<Rightarrow> error + number" where
  "fetchRiskScore r =
     (case r of
        Inl e \<Rightarrow> Inl e
      | Inr response \<Rightarrow>
          if \<not> ok response then Inl (Error ''Risk service unavailable'')
          else json response)"

text \<open>
  The object a sync returns, field by field: \<open>None\<close> is a field the response lacks.
\<close>

record synced_data =
  s_id :: "string option"
  s_name :: "string option"
  s_age :: "number option"
  s_lastVisit :: "string option"
  s_conditions :: "string list option"
  s_isActive :: "bool option"
  s_riskScore :: "number option"
  s_lastSync :: "string option"

definition syncPatientData_api :: "synced_data fetch_result \<Rightarrow> error + synced_data" where
  "syncPatientData_api r =
     (case r of
        Inl e \<Rightarrow> Inl e
      | Inr response \<Rightarrow>
          if \<not> ok response then Inl (Error ''Sync failed'')
          else json response)"

subsection \<open>Status toggle\<close>

text \<open>
  \<open>handlePatientToggle\<close> up to its \<open>await\<close>. With no such patient it returns inside the
  \<open>try\<close>, and the \<open>finally\<close> resets \<open>loading\<close>.
\<close>

definition handlePatientToggle :: "string \<Rightarrow> dashboard \<Rightarrow> dashboard" where
  "handlePatientToggle patientId s =
     (if loading s then s
      else case find (\<lambda>p. id_p p = patientId) (patients s) of
             None \<Rightarrow> s\<lparr>loading := False\<rparr>
           | Some p \<Rightarrow>
               s\<lparr>loading := True,
                 fetch_calls := fetch_calls s @ [PUT_status patientId (\<not> isActive p)]\<rparr>)"

text \<open>
  The rest of \<open>handlePatientToggle\<close>, run when the request settles. \<open>patients0\<close> is the list
  the handler closed over when it was called.
\<close>

definition handlePatientToggle_settled ::
  "string \<Rightarrow> patient list \<Rightarrow> error + patient \<Rightarrow> dashboard \<Rightarrow> dashboard"
where
  "handlePatientToggle_settled patientId patients0 r s =
     (case r of
        Inr result \<Rightarrow>
          s\<lparr>patients :=
               map (\<lambda>p. if id_p p = patientId then p\<lparr>isActive := isActive result\<rparr> else p) patients0,
            onPatientUpdate :=
               onPatientUpdate s @
               map (\<lambda>p. p\<lparr>isActive := isActive result\<rparr>)
                 (filter (\<lambda>p. id_p p = patientId) patients0),
            loading := False\<rparr>
      | Inl e \<Rightarrow>
          s\<lparr>console_error := console_error s @ [(''Failed to update patient status:'', e)],
            alerts := alerts s @ [''Failed to update patient status. Please try again.''],
            loading := False\<rparr>)"

subsection \<open>Adding a patient\<close>

text \<open>
  The handler reads the clock twice: \<open>now\<close> is the value of \<open>Date.now()\<close> and \<open>isoString\<close>
  that of \<open>new Date().toISOString()\<close>; \<open>split('T')[0]\<close> keeps what precedes the first
  \<open>T\<close>.
\<close>

definition newPatient :: "int \<Rightarrow> string \<Rightarrow> patient list \<Rightarrow> patient" where
  "newPatient now isoString ps =
     \<lparr>id_p = toString now,
      name = ''Patient '' @ toString (int (length ps) + 1),
      age = Some 45,
      lastVisit = takeWhile (\<lambda>c. c \<noteq> CHR ''T'') isoString,
      conditions = [''General Checkup''],
      isActive = True,
      riskScore = None,
      lastSync = None\<rparr>"

definition addNewPatient :: "int \<Rightarrow> string \<Rightarrow> dashboard \<Rightarrow> dashboard" where
  "addNewPatient now isoString s =
     s\<lparr>patients := patients s @ [newPatient now isoString (patients s)]\<rparr>"

subsection \<open>Sync\<close>

text \<open>\<open>{ ...p, ...syncedData, lastSync: syncedData.lastSync }\<close>\<close>

definition mergeSynced :: "patient \<Rightarrow> synced_data \<Rightarrow> patient" where
  "mergeSynced p d =
     \<lparr>id_p = (case s_id d of None \<Rightarrow> id_p p | Some v \<Rightarrow> v),
      name = (case s_name d of None \<Rightarrow> name p | Some v \<Rightarrow> v),
      age = (case s_age d of None \<Rightarrow> age p | Some v \<Rightarrow> v),
      lastVisit = (case s_lastVisit d of None \<Rightarrow> lastVisit p | Some v \<Rightarrow> v),
      conditions = (case s_conditions d of None \<Rightarrow> conditions p | Some v \<Rightarrow> v),
      isActive = (case s_isActive d of None \<Rightarrow> isActive p | Some v \<Rightarrow> v),
      riskScore = (case s_riskScore d of None \<Rightarrow> riskScore p | Some v \<Rightarrow> Some v),
      lastSync = s_lastSync d\<rparr>"

definition syncPatientData :: "string \<Rightarrow> dashboard \<Rightarrow> dashboard" where
  "syncPatientData patientId s =
     (if patientId \<in> syncingPatients s then s
      else s\<lparr>syncingPatients := insert patientId (syncingPatients s),
             fetch_calls := fetch_calls s @ [POST_sync patientId]\<rparr>)"

definition syncPatientData_settled :: "string \<Rightarrow> error + synced_data \<Rightarrow> dashboard \<Rightarrow> dashboard" where
  "syncPatientData_settled patientId r s =
     (case r of
        Inr syncedData \<Rightarrow>
          s\<lparr>patients :=
               map (\<lambda>p. if id_p p = patientId then mergeSynced p syncedData else p) (patients s)\<rparr>
      | Inl e \<Rightarrow>
          s\<lparr>console_error :=
               console_error s @ [(''Failed to sync patient '' @ patientId @ '':'', e)]\<rparr>)
     \<lparr>syncingPatients := syncingPatients s - {patientId}\<rparr>"

subsection \<open>Automatic fetching of risk scores\<close>

text \<open>
  One run of the effect. The guard \<open>loadingRisk.has(patient.id)\<close> reads the set of the
  render the effect belongs to (\<open>loadingRisk0\<close>), while \<open>setLoadingRisk(prev => ...)\<close> adds to
  the current one; each callback runs up to its \<open>await\<close>.
\<close>

definition fetchRisk_start :: "string set \<Rightarrow> dashboard \<Rightarrow> patient \<Rightarrow> dashboard" where
  "fetchRisk_start loadingRisk0 s p =
     (if id_p p \<in> loadingRisk0 then s
      else s\<lparr>loadingRisk := insert (id_p p) (loadingRisk s),
             fetch_calls := fetch_calls s @ [GET_risk_score (id_p p)]\<rparr>)"

definition riskEffect :: "dashboard \<Rightarrow> dashboard" where
  "riskEffect s =
     foldl (fetchRisk_start (loadingRisk s)) s (filter (\<lambda>p. riskScore p = None) (patients s))"

text \<open>The rest of a callback, run when the request for \<open>patientId\<close> settles.\<close>

definition fetchRisk_settled :: "string \<Rightarrow> error + number \<Rightarrow> dashboard \<Rightarrow> dashboard" where
  "fetchRisk_settled patientId r s =
     (case r of
        Inr score \<Rightarrow>
          s\<lparr>patients :=
               map (\<lambda>p. if id_p p = patientId then p\<lparr>riskScore := Some score\<rparr> else p) (patients s)\<rparr>
      | Inl e \<Rightarrow>
          s\<lparr>console_error :=
               console_error s @ [(''Failed to fetch risk score for '' @ patientId @ '':'', e)]\<rparr>)
     \<lparr>loadingRisk := loadingRisk s - {patientId}\<rparr>"

text \<open>
  The effect depends on \<open>[patients, loadingRisk]\<close>. Settling a request stores a new
  \<open>Set\<close> object in \<open>loadingRisk\<close>, so the render that follows runs the effect again.
\<close>

definition fetchRisk_settled_rerender :: "string \<Rightarrow> error + number \<Rightarrow> dashboard \<Rightarrow> dashboard" where
  "fetchRisk_settled_rerender patientId r s = riskEffect (fetchRisk_settled patientId r s)"

section \<open>The manager component\<close>

record patient_m =
  id_m :: int
  name_m :: string
  email_m :: string
  age_m :: int

text \<open>
  The requests of the manager. The body of a create or an update carries \<open>parseInt(age)\<close>,
  where \<open>parseInt\<close> is the runtime's, a parameter, with \<open>None\<close> for \<open>NaN\<close>; an update names
  \<open>editingId\<close>, which may be \<open>null\<close>.
\<close>

datatype request_m =
    GET_patients
  | POST_patients string string "int option"
  | PUT_patients "int option" string string "int option"
  | DELETE_patients int

text \<open>
  The state variables of \<open>PatientManager\<close>, then the requests it sent, its calls of
  \<open>console.log\<close> in a \<open>catch\<close> (message and error object) and its \<open>alert\<close>s.
\<close>

record manager =
  patients_m :: "patient_m list"
  name_s :: string
  email_s :: string
  age_s :: string
  editingId :: "int option"
  loading_m :: bool
  requests_m :: "request_m list"
  console_log :: "(string \<times> error) list"
  alerts_m :: "string list"

text \<open>
  \<open>await fetch(...)\<close> followed by \<open>await response.json()\<close>, as the manager does it: the \<open>ok\<close>
  flag of the response is never read.
\<close>

definition response_json :: "'a fetch_result \<Rightarrow> error + 'a" where
  "response_json r = (case r of Inl e \<Rightarrow> Inl e | Inr response \<Rightarrow> json response)"

definition fetchPatients :: "manager \<Rightarrow> manager" where
  "fetchPatients s = s\<lparr>loading_m := True, requests_m := requests_m s @ [GET_patients]\<rparr>"

definition fetchPatients_settled :: "patient_m list fetch_result \<Rightarrow> manager \<Rightarrow> manager" where
  "fetchPatients_settled r s =
     (case response_json r of
        Inr data \<Rightarrow> s\<lparr>patients_m := data\<rparr>
      | Inl e \<Rightarrow> s\<lparr>console_log := console_log s @ [(''Error fetching patients:'', e)]\<rparr>)
     \<lparr>loading_m := False\<rparr>"

text \<open>\<open>!name || !email || !age\<close>: a string is falsy exactly when it is empty.\<close>

definition fieldsMissing :: "manager \<Rightarrow> bool" where
  "fieldsMissing s = (name_s s = [] \<or> email_s s = [] \<or> age_s s = [])"

definition addPatient :: "(string \<Rightarrow> int option) \<Rightarrow> manager \<Rightarrow> manager" where
  "addPatient parseInt s =
     (if fieldsMissing s then s\<lparr>alerts_m := alerts_m s @ [''Please fill all fields'']\<rparr>
      else s\<lparr>requests_m :=
               requests_m s @ [POST_patients (name_s s) (email_s s) (parseInt (age_s s))]\<rparr>)"

text \<open>
  The rest of \<open>addPatient\<close>, run when the request settles; \<open>patients0\<close> is the list the
  handler closed over when it was called.
\<close>

definition addPatient_settled :: "patient_m list \<Rightarrow> patient_m fetch_result \<Rightarrow> manager \<Rightarrow> manager" where
  "addPatient_settled patients0 r s =
     (case response_json r of
        Inr patient \<Rightarrow>
          s\<lparr>patients_m := patients0 @ [patient], name_s := [], email_s := [], age_s := []\<rparr>
      | Inl e \<Rightarrow> s\<lparr>console_log := console_log s @ [(''Error adding patient:'', e)]\<rparr>)"

definition updatePatient :: "(string \<Rightarrow> int option) \<Rightarrow> manager \<Rightarrow> manager" where
  "updatePatient parseInt s =
     (if fieldsMissing s then s\<lparr>alerts_m := alerts_m s @ [''Please fill all fields'']\<rparr>
      else s\<lparr>requests_m :=
               requests_m s @
               [PUT_patients (editingId s) (name_s s) (email_s s) (parseInt (age_s s))]\<rparr>)"

definition updatePatient_settled ::
  "int option \<Rightarrow> patient_m list \<Rightarrow> patient_m fetch_result \<Rightarrow> manager \<Rightarrow> manager"
where
  "updatePatient_settled editingId0 patients0 r s =
     (case response_json r of
        Inr patient \<Rightarrow>
          s\<lparr>patients_m := map (\<lambda>p. if Some (id_m p) = editingId0 then patient else p) patients0,
            name_s := [], email_s := [], age_s := [], editingId := None\<rparr>
      | Inl e \<Rightarrow> s\<lparr>console_log := console_log s @ [(''Error updating patient:'', e)]\<rparr>)"

definition deletePatient :: "int \<Rightarrow> manager \<Rightarrow> manager" where
  "deletePatient i s = s\<lparr>requests_m := requests_m s @ [DELETE_patients i]\<rparr>"

text \<open>The response of a delete is awaited and never looked at.\<close>

definition deletePatient_settled ::
  "int \<Rightarrow> patient_m list \<Rightarrow> 'a fetch_result \<Rightarrow> manager \<Rightarrow> manager"
where
  "deletePatient_settled i patients0 r s =
     (case r of
        Inr response \<Rightarrow> s\<lparr>patients_m := filter (\<lambda>p. id_m p \<noteq> i) patients0\<rparr>
      | Inl e \<Rightarrow> s\<lparr>console_log := console_log s @ [(''Error deleting patient:'', e)]\<rparr>)"

section \<open>Initial states and the patients of the test suite\<close>

text \<open>The \<open>useState\<close> defaults of the two components.\<close>

definition PatientDashboard :: "patient list \<Rightarrow> dashboard" where
  "PatientDashboard initialPatients =
     \<lparr>patients = initialPatients, loading = False, loadingRisk = {}, syncingPatients = {},
      fetch_calls = [], console_error = [], alerts = [], onPatientUpdate = []\<rparr>"

definition PatientManager :: manager where
  "PatientManager =
     \<lparr>patients_m = [], name_s = [], email_s = [], age_s = [], editingId = None,
      loading_m = False, requests_m = [], console_log = [], alerts_m = []\<rparr>"

text \<open>\<open>mockPatients\<close> of the dashboard's tests.\<close>

definition john :: patient where
  "john =
     \<lparr>id_p = ''1'', name = ''John Doe'', age = Some 35, lastVisit = ''2024-01-15'',
      conditions = [''Hypertension'', ''Diabetes''], isActive = True, riskScore = Some (Some 65),
      lastSync = None\<rparr>"

definition jane :: patient where
  "jane =
     \<lparr>id_p = ''2'', name = ''Jane Smith'', age = Some 28, lastVisit = ''2024-02-01'',
      conditions = [''Asthma''], isActive = False, riskScore = Some (Some 25), lastSync = None\<rparr>"

definition mockPatients :: "patient list" where
  "mockPatients = [john, jane]"

text \<open>
  What the runtime answers on the strings the examples below use: \<open>toLowerCase\<close> on
  names, conditions and search terms; \<open>localeCompare\<close> on the two names of
  \<open>mockPatients\<close> and on the names \<open>de Vries\<close> and \<open>Smith\<close>; \<open>new Date(s).getTime()\<close> on five
  dates (midnight UTC, in milliseconds) and on strings that are no dates.
\<close>

definition lowerCase_mock :: "string \<Rightarrow> string" where
  "lowerCase_mock s =
     (case map_of
        [(''John Doe'', ''john doe''), (''Jane Smith'', ''jane smith''),
         (''Hypertension'', ''hypertension''), (''Diabetes'', ''diabetes''),
         (''Asthma'', ''asthma''), (''John'', ''john''), (''JOHN'', ''john''),
         (''DIABETES'', ''diabetes''), (''NonExistent'', ''nonexistent'')] s of
        None \<Rightarrow> s
      | Some l \<Rightarrow> l)"

definition localeCompare_mock :: "string \<Rightarrow> string \<Rightarrow> int" where
  "localeCompare_mock a b =
     (if a = b then 0
      else if a = ''Jane Smith'' \<and> b = ''John Doe'' then - 1
      else if a = ''de Vries'' \<and> b = ''Smith'' then - 1
      else 1)"

definition getTime_mock :: "string \<Rightarrow> number" where
  "getTime_mock s =
     (if s = ''2023-01-01'' then Some 1672531200000
      else if s = ''2024-01-01'' then Some 1704067200000
      else if s = ''2024-01-15'' then Some 1705276800000
      else if s = ''2024-02-01'' then Some 1706745600000
      else if s = ''2024-03-01'' then Some 1709251200000
      else None)"

text \<open>
  The engine of the test runs is V8. An array of fewer than 64 elements it sorts in two
  steps, reading a \<open>NaN\<close> from the comparator as \<open>+0\<close> like the language does: the
  longest run at the front that already ascends, or strictly descends and is then
  reversed, is taken as sorted, and each element after it is put where a binary search
  in the sorted part before it ends.
\<close>

fun countRun :: "('a \<Rightarrow> 'a \<Rightarrow> number) \<Rightarrow> bool \<Rightarrow> 'a \<Rightarrow> 'a list \<Rightarrow> nat" where
  "countRun compare isDescending previousElement [] = 0"
| "countRun compare isDescending previousElement (currentElement # rest) =
     (let order = order_of (compare currentElement previousElement) in
      if (if isDescending then order \<ge> 0 else order < 0) then 0
      else 1 + countRun compare isDescending currentElement rest)"

fun countAndMakeRun :: "('a \<Rightarrow> 'a \<Rightarrow> number) \<Rightarrow> 'a list \<Rightarrow> nat \<times> 'a list" where
  "countAndMakeRun compare (elementHigh # elementLow # rest) =
     (let isDescending = order_of (compare elementLow elementHigh) < 0;
          runLength = 2 + countRun compare isDescending elementLow rest;
          workArray = elementHigh # elementLow # rest
      in (runLength,
          if isDescending then rev (take runLength workArray) @ drop runLength workArray
          else workArray))"
| "countAndMakeRun compare workArray = (length workArray, workArray)"

function binarySearch :: "('a \<Rightarrow> 'a \<Rightarrow> number) \<Rightarrow> 'a \<Rightarrow> 'a list \<Rightarrow> nat \<Rightarrow> nat \<Rightarrow> nat" where
  "binarySearch compare pivot workArray left right =
     (if left < right then
        let mid = left + (right - left) div 2 in
        if order_of (compare pivot (workArray ! mid)) < 0
        then binarySearch compare pivot workArray left mid
        else binarySearch compare pivot workArray (mid + 1) right
      else left)"
  by pat_completeness auto
termination
  by (relation "measure (\<lambda>(compare, pivot, workArray, left, right). right - left)") auto

declare binarySearch.simps [simp del]

fun binaryInsertionSort :: "('a \<Rightarrow> 'a \<Rightarrow> number) \<Rightarrow> 'a list \<Rightarrow> 'a list \<Rightarrow> 'a list" where
  "binaryInsertionSort compare sortedRun [] = sortedRun"
| "binaryInsertionSort compare sortedRun (pivot # rest) =
     (let left = binarySearch compare pivot sortedRun 0 (length sortedRun)
      in binaryInsertionSort compare (take left sortedRun @ pivot # drop left sortedRun) rest)"

definition engine_mock :: "('a \<Rightarrow> 'a \<Rightarrow> number) \<Rightarrow> 'a list \<Rightarrow> 'a list" where
  "engine_mock compare xs =
     (if length xs < 2 then xs
      else let (runLength, workArray) = countAndMakeRun compare xs
           in binaryInsertionSort compare (take runLength workArray)
                (drop runLength workArray))"

section \<open>The dashboard as a system of events\<close>

text \<open>
  What can happen to a mounted dashboard: the user activates a toggle, adds a patient or
  starts a sync, and a request that was sent settles. A toggle handler that has reached
  its \<open>await\<close> is suspended with the identifier it was called with and the patient list
  it closed over; \<open>awaiting\<close> holds the suspended handlers, oldest first. After every event
  the component renders, and the effect that fetches risk scores runs on the new state
  when the patient list or \<open>loadingRisk\<close> has changed. Running it when neither has changed
  since its last run sends nothing and changes nothing, so it is written after every
  event. Which fetches of risk scores and which syncs are outstanding is not recorded:
  such a request may settle at any time.
\<close>

datatype event =
    Toggle string
  | Toggle_settled "patient fetch_result"
  | Add int string
  | Sync string
  | Sync_settled string "synced_data fetch_result"
  | Risk_settled string "number fetch_result"

record system =
  ui :: dashboard
  awaiting :: "(string \<times> patient list) list"

definition mount :: "patient list \<Rightarrow> system" where
  "mount initialPatients = \<lparr>ui = riskEffect (PatientDashboard initialPatients), awaiting = []\<rparr>"

fun step :: "system \<Rightarrow> event \<Rightarrow> system" where
  "step sys (Toggle patientId) =
     \<lparr>ui = riskEffect (handlePatientToggle patientId (ui sys)),
      awaiting =
        (if loading (handlePatientToggle patientId (ui sys)) \<and> \<not> loading (ui sys)
         then awaiting sys @ [(patientId, patients (ui sys))]
         else awaiting sys)\<rparr>"
| "step sys (Toggle_settled r) =
     (case awaiting sys of
        [] \<Rightarrow> sys
      | (patientId, patients0) # rest \<Rightarrow>
          \<lparr>ui = riskEffect
                 (handlePatientToggle_settled patientId patients0 (updatePatientStatus r) (ui sys)),
           awaiting = rest\<rparr>)"
| "step sys (Add now isoString) =
     sys\<lparr>ui := riskEffect (addNewPatient now isoString (ui sys))\<rparr>"
| "step sys (Sync patientId) =
     sys\<lparr>ui := riskEffect (syncPatientData patientId (ui sys))\<rparr>"
| "step sys (Sync_settled patientId r) =
     sys\<lparr>ui := riskEffect (syncPatientData_settled patientId (syncPatientData_api r) (ui sys))\<rparr>"
| "step sys (Risk_settled patientId r) =
     sys\<lparr>ui := fetchRisk_settled_rerender patientId (fetchRiskScore r) (ui sys)\<rparr>"

definition run :: "patient list \<Rightarrow> event list \<Rightarrow> system" where
  "run initialPatients events = foldl step (mount initialPatients) events"

text \<open>The requests for a change of status among the requests sent.\<close>

fun is_PUT_status :: "api_call \<Rightarrow> bool" where
  "is_PUT_status (PUT_status patientId active) = True"
| "is_PUT_status call = False"

section \<open>Properties\<close>

subsection \<open>Status toggle\<close>

lemma toggle_blocked: "loading s \<Longrightarrow> handlePatientToggle patientId s = s"
  by (simp add: handlePatientToggle_def)

lemma toggles_blocked: "loading s \<Longrightarrow> fold handlePatientToggle ids s = s"
  by (induction ids) (simp_all add: toggle_blocked)

text \<open>
  C6. The handler does not touch the patient list before its request settles. A request
  fails when \<open>fetch\<close> rejects, when the response is not \<open>ok\<close>, or when its body cannot be
  read; whenever it fails with error \<open>e\<close>, the patient list (and with it every active
  flag) stays what it was, the callback is not called, \<open>console.error\<close> receives the
  message with \<open>e\<close> itself, the user is alerted, and \<open>loading\<close> is reset.
\<close>

theorem toggle_failure:
  "patients (handlePatientToggle patientId s) = patients s
   \<and> updatePatientStatus (Inl e) = Inl e
   \<and> updatePatientStatus (Inr (Response False j)) = Inl (Error ''Failed to update patient status'')
   \<and> (updatePatientStatus r = Inl e \<longrightarrow>
        patients (handlePatientToggle_settled patientId patients0 (updatePatientStatus r) s') = patients s'
      \<and> console_error (handlePatientToggle_settled patientId patients0 (updatePatientStatus r) s') =
          console_error s' @ [(''Failed to update patient status:'', e)]
      \<and> alerts (handlePatientToggle_settled patientId patients0 (updatePatientStatus r) s') =
          alerts s' @ [''Failed to update patient status. Please try again.'']
      \<and> onPatientUpdate (handlePatientToggle_settled patientId patients0 (updatePatientStatus r) s') =
          onPatientUpdate s'
      \<and> loading (handlePatientToggle_settled patientId patients0 (updatePatientStatus r) s') = False)"
  by (simp add: handlePatientToggle_def handlePatientToggle_settled_def updatePatientStatus_def
      split: option.split)

text \<open>The test \<open>handles API error gracefully\<close>: the request for John Doe is rejected.\<close>

theorem toggle_failure_witness:
  "updatePatientStatus (Inl (Error ''Network error'')) = Inl (Error ''Network error'')
   \<and> patients (handlePatientToggle_settled ''1'' mockPatients
       (updatePatientStatus (Inl (Error ''Network error'')))
       (handlePatientToggle ''1'' (PatientDashboard mockPatients))) = mockPatients
   \<and> console_error (handlePatientToggle_settled ''1'' mockPatients
       (updatePatientStatus (Inl (Error ''Network error'')))
       (handlePatientToggle ''1'' (PatientDashboard mockPatients))) =
     [(''Failed to update patient status:'', Error ''Network error'')]"
  using toggle_failure [of "''1''" "PatientDashboard mockPatients" "Error ''Network error''" "Inr john"
      "Inl (Error ''Network error'')" mockPatients
      "handlePatientToggle ''1'' (PatientDashboard mockPatients)"]
  by (simp add: PatientDashboard_def updatePatientStatus_def handlePatientToggle_def
      mockPatients_def john_def jane_def)

subsection \<open>Sync\<close>

text \<open>
  C10. A successful sync maps the synced patient to the merge of its record with the
  response. The merged \<open>lastSync\<close> is the response's, absent when the response has none,
  whatever was stored; any other field the response lacks keeps its stored value.
\<close>

theorem sync_merge_fields:
  "lastSync (mergeSynced p d) = s_lastSync d
   \<and> lastSync (mergeSynced p (d\<lparr>s_lastSync := None\<rparr>)) = None
   \<and> id_p (mergeSynced p (d\<lparr>s_id := None\<rparr>)) = id_p p
   \<and> name (mergeSynced p (d\<lparr>s_name := None\<rparr>)) = name p
   \<and> age (mergeSynced p (d\<lparr>s_age := None\<rparr>)) = age p
   \<and> lastVisit (mergeSynced p (d\<lparr>s_lastVisit := None\<rparr>)) = lastVisit p
   \<and> conditions (mergeSynced p (d\<lparr>s_conditions := None\<rparr>)) = conditions p
   \<and> isActive (mergeSynced p (d\<lparr>s_isActive := None\<rparr>)) = isActive p
   \<and> riskScore (mergeSynced p (d\<lparr>s_riskScore := None\<rparr>)) = riskScore p
   \<and> patients (syncPatientData_settled patientId
         (syncPatientData_api (Inr (Response True (Inr d)))) s) =
       map (\<lambda>p. if id_p p = patientId then mergeSynced p d else p) (patients s)"
  by (simp add: mergeSynced_def syncPatientData_settled_def syncPatientData_api_def)

subsection \<open>The manager\<close>

text \<open>
  C9. With any of the three form fields empty, create and update do nothing but alert:
  no request is sent, and the list and every other state variable stay as they are. With
  all three filled, each sends exactly one request and does not alert.
\<close>

theorem manager_validation:
  "(fieldsMissing s \<longrightarrow>
      addPatient parseInt s = s\<lparr>alerts_m := alerts_m s @ [''Please fill all fields'']\<rparr>
    \<and> updatePatient parseInt s = s\<lparr>alerts_m := alerts_m s @ [''Please fill all fields'']\<rparr>)
   \<and> (\<not> fieldsMissing s \<longrightarrow>
      addPatient parseInt s =
        s\<lparr>requests_m := requests_m s @ [POST_patients (name_s s) (email_s s) (parseInt (age_s s))]\<rparr>
    \<and> updatePatient parseInt s =
        s\<lparr>requests_m := requests_m s @
           [PUT_patients (editingId s) (name_s s) (email_s s) (parseInt (age_s s))]\<rparr>)
   \<and> (fieldsMissing s \<longleftrightarrow> name_s s = [] \<or> email_s s = [] \<or> age_s s = [])"
  by (simp add: addPatient_def updatePatient_def fieldsMissing_def)

text \<open>A form without an email, and the form of the test \<open>adds a new patient\<close>.\<close>

theorem manager_validation_witness:
  "fieldsMissing (PatientManager\<lparr>name_s := ''John Doe'', age_s := ''30''\<rparr>)
   \<and> \<not> fieldsMissing
       (PatientManager\<lparr>name_s := ''John Doe'', email_s := ''john@example.com'', age_s := ''30''\<rparr>)
   \<and> requests_m (addPatient (\<lambda>a. if a = ''30'' then Some 30 else None)
       (PatientManager\<lparr>name_s := ''John Doe'', age_s := ''30''\<rparr>)) = []
   \<and> alerts_m (updatePatient (\<lambda>a. if a = ''30'' then Some 30 else None)
       (PatientManager\<lparr>name_s := ''John Doe'', age_s := ''30''\<rparr>)) = [''Please fill all fields'']
   \<and> requests_m (addPatient (\<lambda>a. if a = ''30'' then Some 30 else None)
       (PatientManager\<lparr>name_s := ''John Doe'', email_s := ''john@example.com'', age_s := ''30''\<rparr>)) =
       [POST_patients ''John Doe'' ''john@example.com'' (Some 30)]"
  using manager_validation [of "PatientManager\<lparr>name_s := ''John Doe'', age_s := ''30''\<rparr>"
      "\<lambda>a. if a = ''30'' then Some 30 else None"]
    manager_validation [of "PatientManager\<lparr>name_s := ''John Doe'', email_s := ''john@example.com'', age_s := ''30''\<rparr>"
      "\<lambda>a. if a = ''30'' then Some 30 else None"]
  by (simp add: PatientManager_def fieldsMissing_def)

text \<open>
  C7, as amended. For list, create and update a request fails when \<open>fetch\<close> rejects or the body cannot
  be read as JSON, for delete when \<open>fetch\<close> rejects: then the only change is one line on
  the console (and, for list, the reset of \<open>loading\<close>), so the list stays as it is and
  nobody is alerted. Any response whose body can be read, of whatever status, counts as a
  success: list stores the data, create appends the returned patient, update replaces
  the edited one, and delete (which reads no body) filters the deleted one out, each on
  the list the handler was called with. The three functions of the dashboard API turn a
  response that is not \<open>ok\<close> into an error.
\<close>

theorem manager_failure_and_success:
  "fetchPatients_settled (Inl e) s =
     s\<lparr>console_log := console_log s @ [(''Error fetching patients:'', e)], loading_m := False\<rparr>
   \<and> fetchPatients_settled (Inr (Response status (Inl e))) s =
     s\<lparr>console_log := console_log s @ [(''Error fetching patients:'', e)], loading_m := False\<rparr>
   \<and> fetchPatients_settled (Inr (Response status (Inr data))) s =
     s\<lparr>patients_m := data, loading_m := False\<rparr>
   \<and> addPatient_settled patients0 (Inl e) s =
     s\<lparr>console_log := console_log s @ [(''Error adding patient:'', e)]\<rparr>
   \<and> addPatient_settled patients0 (Inr (Response status (Inl e))) s =
     s\<lparr>console_log := console_log s @ [(''Error adding patient:'', e)]\<rparr>
   \<and> patients_m (addPatient_settled patients0 (Inr (Response status (Inr patient))) s) =
     patients0 @ [patient]
   \<and> updatePatient_settled editingId0 patients0 (Inl e) s =
     s\<lparr>console_log := console_log s @ [(''Error updating patient:'', e)]\<rparr>
   \<and> updatePatient_settled editingId0 patients0 (Inr (Response status (Inl e))) s =
     s\<lparr>console_log := console_log s @ [(''Error updating patient:'', e)]\<rparr>
   \<and> patients_m (updatePatient_settled editingId0 patients0 (Inr (Response status (Inr patient))) s) =
     map (\<lambda>p. if Some (id_m p) = editingId0 then patient else p) patients0
   \<and> deletePatient_settled i patients0 (Inl e) s =
     s\<lparr>console_log := console_log s @ [(''Error deleting patient:'', e)]\<rparr>
   \<and> patients_m (deletePatient_settled i patients0 (Inr (Response status body)) s) =
     filter (\<lambda>p. id_m p \<noteq> i) patients0
   \<and> updatePatientStatus (Inr (Response False j1)) = Inl (Error ''Failed to update patient status'')
   \<and> fetchRiskScore (Inr (Response False j2)) = Inl (Error ''Risk service unavailable'')
   \<and> syncPatientData_api (Inr (Response False j3)) = Inl (Error ''Sync failed'')"
  by (simp add: fetchPatients_settled_def addPatient_settled_def updatePatient_settled_def
      deletePatient_settled_def response_json_def updatePatientStatus_def fetchRiskScore_def
      syncPatientData_api_def)

text \<open>
  The server answers a create, a list and an update with status 500 and an HTML page:
  \<open>fetch\<close> resolves, so nothing failed in transport, and yet reading the body throws, the
  error is logged and the list stays as it is.
\<close>

theorem manager_failure_counterexample:
  "addPatient_settled [] (Inr (Response False (Inl (SyntaxError ''Unexpected token <''))))
     (PatientManager\<lparr>name_s := ''Ann'', email_s := ''ann@example.org'', age_s := ''30'',
        requests_m := [POST_patients ''Ann'' ''ann@example.org'' (Some 30)]\<rparr>) =
     PatientManager\<lparr>name_s := ''Ann'', email_s := ''ann@example.org'', age_s := ''30'',
        requests_m := [POST_patients ''Ann'' ''ann@example.org'' (Some 30)],
        console_log := [(''Error adding patient:'', SyntaxError ''Unexpected token <'')]\<rparr>
   \<and> fetchPatients_settled (Inr (Response False (Inl (SyntaxError ''Unexpected token <''))))
       (fetchPatients PatientManager) =
     PatientManager\<lparr>requests_m := [GET_patients],
        console_log := [(''Error fetching patients:'', SyntaxError ''Unexpected token <'')]\<rparr>
   \<and> patients_m (updatePatient_settled (Some 1) []
       (Inr (Response False (Inl (SyntaxError ''Unexpected token <'')))) PatientManager) = []
   \<and> console_log (updatePatient_settled (Some 1) []
       (Inr (Response False (Inl (SyntaxError ''Unexpected token <'')))) PatientManager) =
     [(''Error updating patient:'', SyntaxError ''Unexpected token <'')]"
  by (simp add: addPatient_settled_def fetchPatients_settled_def updatePatient_settled_def
      fetchPatients_def response_json_def PatientManager_def)

subsection \<open>Adding a patient\<close>

lemma digits_nonempty: "digits n \<noteq> []"
  by (subst digits.simps) simp

lemma digit_char_inject:
  "a < 10 \<Longrightarrow> b < 10 \<Longrightarrow> ''0123456789'' ! a = ''0123456789'' ! b \<Longrightarrow> a = b"
proof -
  assume "a < 10" "b < 10" and eq: "''0123456789'' ! a = ''0123456789'' ! b"
  have "distinct ''0123456789''" by simp
  moreover have "a < length ''0123456789''" "b < length ''0123456789''"
    using \<open>a < 10\<close> \<open>b < 10\<close> by simp_all
  ultimately show "a = b" using eq by (simp only: nth_eq_iff_index_eq)
qed

lemma digits_inject: "digits n = digits m \<Longrightarrow> n = m"
proof (induction n arbitrary: m rule: digits.induct)
  case (1 n)
  show ?case
  proof (cases "n < 10")
    case n: True
    show ?thesis
    proof (cases "m < 10")
      case True
      with n "1.prems" have "''0123456789'' ! n = ''0123456789'' ! m"
        by (simp add: digits.simps [of n] digits.simps [of m])
      with n True show ?thesis by (rule digit_char_inject)
    next
      case False
      with n "1.prems" digits_nonempty [of "m div 10"] show ?thesis
        by (simp add: digits.simps [of n] digits.simps [of m])
    qed
  next
    case n: False
    show ?thesis
    proof (cases "m < 10")
      case True
      with n "1.prems" digits_nonempty [of "n div 10"] show ?thesis
        by (simp add: digits.simps [of n] digits.simps [of m])
    next
      case False
      with n "1.prems" have d: "digits (n div 10) = digits (m div 10)"
        and c: "''0123456789'' ! (n mod 10) = ''0123456789'' ! (m mod 10)"
        by (simp_all add: digits.simps [of n] digits.simps [of m])
      from n d have "n div 10 = m div 10" by (rule "1.IH")
      moreover have "n mod 10 = m mod 10"
        by (rule digit_char_inject [OF _ _ c]) simp_all
      ultimately show ?thesis by (metis div_mult_mod_eq)
    qed
  qed
qed

lemma digits_chars: "set (digits n) \<subseteq> set ''0123456789''"
proof -
  define D where "D = set ''0123456789''"
  have mem: "''0123456789'' ! k \<in> D" if "k < 10" for k
    unfolding D_def using that by (intro nth_mem) simp
  have "set (digits n) \<subseteq> D"
  proof (induction n rule: digits.induct)
    case (1 n)
    show ?case
    proof (cases "n < 10")
      case True
      with mem [of n] show ?thesis by (simp add: digits.simps [of n])
    next
      case False
      with "1.IH" mem [of "n mod 10"] show ?thesis by (simp add: digits.simps [of n])
    qed
  qed
  then show ?thesis by (simp only: D_def)
qed

lemma toString_inject: "toString a = toString b \<Longrightarrow> a = b"
proof -
  assume eq: "toString a = toString b"
  have "digits k \<noteq> CHR ''-'' # ds" for k ds
  proof
    assume "digits k = CHR ''-'' # ds"
    then have "CHR ''-'' \<in> set (digits k)" by simp
    with digits_chars [of k] have "CHR ''-'' \<in> set ''0123456789''" by blast
    then show False by simp
  qed
  then have no_minus: "digits k \<noteq> CHR ''-'' # ds" "CHR ''-'' # ds \<noteq> digits k" for k ds
    by (simp_all add: eq_commute [of "CHR ''-'' # ds"])
  show "a = b"
  proof (cases "a < 0")
    case a: True
    show ?thesis
    proof (cases "b < 0")
      case True
      with a eq have "nat (- a) = nat (- b)" by (simp add: toString_def digits_inject)
      with a True show ?thesis by simp
    next
      case False
      with a eq no_minus [where k = "nat b" and ds = "digits (nat (- a))"] show ?thesis by (simp add: toString_def)
    qed
  next
    case a: False
    show ?thesis
    proof (cases "b < 0")
      case True
      with a eq no_minus [where k = "nat a" and ds = "digits (nat (- b))"] show ?thesis by (simp add: toString_def)
    next
      case False
      with a eq have "nat a = nat b" by (simp add: toString_def digits_inject)
      with a False show ?thesis by simp
    qed
  qed
qed

lemma toString_1700000000000: "toString 1700000000000 = ''1700000000000''"
  by (simp add: toString_def digits.simps)

text \<open>
  C8, as amended. Adding a patient appends exactly one record and leaves the records
  before it as they were, so the total grows by one and nothing is deleted; no request is
  sent. The new record has the one condition \<open>General Checkup\<close>. Its identifier is made
  on the client from the clock: the decimal reading of \<open>Date.now()\<close>, so two additions
  get the same identifier exactly when the clock reads the same. What counts upwards is
  the name, \<open>Patient n\<close> with \<open>n\<close> one more than the length of the list.
\<close>

theorem addNewPatient_appends:
  "patients (addNewPatient now isoString s) =
     patients s @ [newPatient now isoString (patients s)]
   \<and> totalPatients (patients (addNewPatient now isoString s)) = totalPatients (patients s) + 1
   \<and> take (length (patients s)) (patients (addNewPatient now isoString s)) = patients s
   \<and> conditions (newPatient now isoString (patients s)) = [''General Checkup'']
   \<and> id_p (newPatient now isoString (patients s)) = toString now
   \<and> (id_p (newPatient now isoString ps) = id_p (newPatient now' isoString' ps') \<longleftrightarrow>
        now = now')
   \<and> name (newPatient now isoString (patients s)) =
       ''Patient '' @ toString (int (length (patients s)) + 1)
   \<and> fetch_calls (addNewPatient now isoString s) = fetch_calls s"
proof -
  have "toString now = toString now' \<longleftrightarrow> now = now'"
    using toString_inject [of now now'] by blast
  then show ?thesis
    by (simp add: addNewPatient_def newPatient_def totalPatients_def)
qed

text \<open>
  Two additions while the clock reads the same give two patients with one identifier.
\<close>

theorem addNewPatient_counterexample:
  "map id_p (patients (addNewPatient 1700000000000 ''2023-11-14T22:13:20.000Z''
      (addNewPatient 1700000000000 ''2023-11-14T22:13:20.000Z''
        (PatientDashboard mockPatients)))) =
     [''1'', ''2'', ''1700000000000'', ''1700000000000'']"
  by (simp add: addNewPatient_def newPatient_def PatientDashboard_def mockPatients_def john_def
      jane_def toString_1700000000000)

subsection \<open>Automatic fetching of risk scores\<close>

lemma fetchRisk_starts:
  "foldl (fetchRisk_start L) s ps =
     s\<lparr>loadingRisk := loadingRisk s \<union> set (map id_p (filter (\<lambda>p. id_p p \<notin> L) ps)),
       fetch_calls := fetch_calls s @ map GET_risk_score (map id_p (filter (\<lambda>p. id_p p \<notin> L) ps))\<rparr>"
proof (induction ps arbitrary: s)
  case Nil
  show ?case by simp
next
  case (Cons p ps)
  have "foldl (fetchRisk_start L) s (p # ps) = foldl (fetchRisk_start L) (fetchRisk_start L s p) ps"
    by simp
  also have "\<dots> = (fetchRisk_start L s p)
     \<lparr>loadingRisk := loadingRisk (fetchRisk_start L s p) \<union> set (map id_p (filter (\<lambda>p. id_p p \<notin> L) ps)),
      fetch_calls := fetch_calls (fetchRisk_start L s p) @
        map GET_risk_score (map id_p (filter (\<lambda>p. id_p p \<notin> L) ps))\<rparr>"
    by (rule Cons.IH)
  also have "\<dots> = s\<lparr>loadingRisk := loadingRisk s \<union> set (map id_p (filter (\<lambda>p. id_p p \<notin> L) (p # ps))),
       fetch_calls := fetch_calls s @ map GET_risk_score (map id_p (filter (\<lambda>p. id_p p \<notin> L) (p # ps)))\<rparr>"
    by (simp add: fetchRisk_start_def)
  finally show ?case .
qed

lemma riskEffect_eq:
  "riskEffect s =
     s\<lparr>loadingRisk := loadingRisk s \<union>
         set (map id_p (filter (\<lambda>p. riskScore p = None \<and> id_p p \<notin> loadingRisk s) (patients s))),
       fetch_calls := fetch_calls s @
         map GET_risk_score
           (map id_p (filter (\<lambda>p. riskScore p = None \<and> id_p p \<notin> loadingRisk s) (patients s)))\<rparr>"
  by (simp add: riskEffect_def fetchRisk_starts conj_commute)

lemma riskEffect_again: "riskEffect (riskEffect s) = riskEffect s"
proof -
  let ?t = "riskEffect s"
  have "filter (\<lambda>p. riskScore p = None \<and> id_p p \<notin> loadingRisk ?t) (patients ?t) = []"
    by (subst riskEffect_eq, subst riskEffect_eq) (auto simp: filter_empty_conv)
  then have "riskEffect ?t = ?t\<lparr>loadingRisk := loadingRisk ?t, fetch_calls := fetch_calls ?t\<rparr>"
    by (subst riskEffect_eq) simp
  then show ?thesis by simp
qed

lemma riskEffect_marks_all:
  "p \<in> set (patients (riskEffect s)) \<Longrightarrow> riskScore p = None \<Longrightarrow>
   id_p p \<in> loadingRisk (riskEffect s)"
  by (subst riskEffect_eq, subst (asm) riskEffect_eq) auto

lemma refetch_after_failure:
  assumes "p \<in> set (patients s)" and "riskScore p = None"
  shows "GET_risk_score (id_p p) \<in>
           set (drop (length (fetch_calls s))
             (fetch_calls (fetchRisk_settled_rerender (id_p p) (Inl e) s)))"
proof -
  let ?t = "fetchRisk_settled (id_p p) (Inl e) s"
  have t: "patients ?t = patients s" "fetch_calls ?t = fetch_calls s" "id_p p \<notin> loadingRisk ?t"
    by (simp_all add: fetchRisk_settled_def)
  with assms have "p \<in> set (filter (\<lambda>p. riskScore p = None \<and> id_p p \<notin> loadingRisk ?t) (patients ?t))"
    by simp
  then have "GET_risk_score (id_p p) \<in> set (map GET_risk_score
      (map id_p (filter (\<lambda>p. riskScore p = None \<and> id_p p \<notin> loadingRisk ?t) (patients ?t))))"
    by (simp only: set_map image_eqI)
  moreover have "fetch_calls (fetchRisk_settled_rerender (id_p p) (Inl e) s) = fetch_calls s @
     map GET_risk_score
      (map id_p (filter (\<lambda>p. riskScore p = None \<and> id_p p \<notin> loadingRisk ?t) (patients ?t)))"
    unfolding fetchRisk_settled_rerender_def by (subst riskEffect_eq) (simp add: t)
  ultimately show ?thesis by simp
qed

lemma risk_fetch_guarded:
  "patientId \<in> loadingRisk s \<Longrightarrow>
   GET_risk_score patientId \<notin> set (drop (length (fetch_calls s)) (fetch_calls (riskEffect s)))"
  by (subst riskEffect_eq) auto

lemma risk_fetch_merged:
  "patients (fetchRisk_settled patientId (Inr score) s) =
     map (\<lambda>p. if id_p p = patientId then p\<lparr>riskScore := Some score\<rparr> else p) (patients s)
   \<and> loadingRisk (fetchRisk_settled patientId (Inr score) s) = loadingRisk s - {patientId}
   \<and> console_error (fetchRisk_settled patientId (Inr score) s) = console_error s"
  by (simp add: fetchRisk_settled_def)

lemma risk_fetch_failed:
  "patients (fetchRisk_settled patientId (Inl e) s) = patients s
   \<and> loadingRisk (fetchRisk_settled patientId (Inl e) s) = loadingRisk s - {patientId}
   \<and> console_error (fetchRisk_settled patientId (Inl e) s) =
       console_error s @ [(''Failed to fetch risk score for '' @ patientId @ '':'', e)]
   \<and> fetch_calls (fetchRisk_settled patientId (Inl e) s) = fetch_calls s"
  by (simp add: fetchRisk_settled_def)

text \<open>
  C1. One run of the effect sends a request for every patient without a risk score
  whose identifier is not in \<open>loadingRisk\<close> and for no other (\<open>riskEffect_eq\<close>,
  \<open>risk_fetch_guarded\<close>), so that afterwards every such patient is marked
  (\<open>riskEffect_marks_all\<close>); a second run right after the first sends nothing
  (\<open>riskEffect_again\<close>); a score that arrives is merged into the patient
  (\<open>risk_fetch_merged\<close>); an error is logged and the marker removed
  (\<open>risk_fetch_failed\<close>). But removing the marker stores a new set in \<open>loadingRisk\<close>, on
  which the effect depends: it runs again, finds the patient without a score and without
  a marker, and sends the request again (\<open>refetch_after_failure\<close>). For John Doe without
  a score and a risk service that answers with a failure, the second request follows the
  first as soon as it has failed.
\<close>

theorem risk_fetch_refetched_after_failure:
  "fetch_calls (ui (mount [john\<lparr>riskScore := None\<rparr>])) = [GET_risk_score ''1'']
   \<and> fetchRiskScore (Inr (Response False (Inl (SyntaxError [])))) =
       Inl (Error ''Risk service unavailable'')
   \<and> fetch_calls (ui (run [john\<lparr>riskScore := None\<rparr>]
        [Risk_settled ''1'' (Inr (Response False (Inl (SyntaxError []))))])) =
       [GET_risk_score ''1'', GET_risk_score ''1'']
   \<and> console_error (ui (run [john\<lparr>riskScore := None\<rparr>]
        [Risk_settled ''1'' (Inr (Response False (Inl (SyntaxError []))))])) =
       [(''Failed to fetch risk score for 1:'', Error ''Risk service unavailable'')]
   \<and> loadingRisk (ui (run [john\<lparr>riskScore := None\<rparr>]
        [Risk_settled ''1'' (Inr (Response False (Inl (SyntaxError []))))])) = {''1''}
   \<and> fetch_calls (ui (run [john\<lparr>riskScore := None\<rparr>]
        [Risk_settled ''1'' (Inr (Response False (Inl (SyntaxError [])))),
         Risk_settled ''1'' (Inl (TypeError ''Failed to fetch''))])) =
       [GET_risk_score ''1'', GET_risk_score ''1'', GET_risk_score ''1'']"
  by (simp add: run_def mount_def fetchRisk_settled_rerender_def fetchRisk_settled_def
      riskEffect_def fetchRisk_start_def fetchRiskScore_def PatientDashboard_def john_def)

subsection \<open>The toggle guard in every reachable state\<close>

lemma riskEffect_keeps:
  "loading (riskEffect s) = loading s"
  "patients (riskEffect s) = patients s"
  "filter is_PUT_status (fetch_calls (riskEffect s)) = filter is_PUT_status (fetch_calls s)"
  by (subst riskEffect_eq, simp add: comp_def)+

lemma toggle_settled_idle:
  "\<not> loading (handlePatientToggle_settled patientId patients0 r s)"
  by (simp add: handlePatientToggle_settled_def split: sum.split)

lemma step_loading:
  assumes "length (awaiting sys) = (if loading (ui sys) then 1 else 0)"
  shows "length (awaiting (step sys ev)) =
           (if loading (ui (step sys ev)) then 1 else 0)"
proof (cases ev)
  case (Toggle patientId)
  with assms show ?thesis
    by (simp add: riskEffect_keeps handlePatientToggle_def split: option.split)
next
  case settled: (Toggle_settled r)
  show ?thesis
  proof (cases "awaiting sys")
    case Nil
    with assms settled show ?thesis by simp
  next
    case (Cons handler rest)
    obtain patientId patients0 where handler: "handler = (patientId, patients0)"
      by (cases handler)
    from assms Cons have "rest = []" by (simp split: if_splits)
    with settled Cons handler show ?thesis
      by (simp add: riskEffect_keeps toggle_settled_idle)
  qed
next
  case (Add now isoString)
  with assms show ?thesis by (simp add: riskEffect_keeps addNewPatient_def)
next
  case (Sync patientId)
  with assms show ?thesis by (simp add: riskEffect_keeps syncPatientData_def)
next
  case (Sync_settled patientId r)
  with assms show ?thesis
    by (simp add: riskEffect_keeps syncPatientData_settled_def split: sum.split)
next
  case (Risk_settled patientId r)
  with assms show ?thesis
    by (simp add: riskEffect_keeps fetchRisk_settled_rerender_def fetchRisk_settled_def
        split: sum.split)
qed

lemma run_loading:
  "length (awaiting (run initialPatients events)) =
     (if loading (ui (run initialPatients events)) then 1 else 0)"
proof (induction events rule: rev_induct)
  case Nil
  show ?case by (simp add: run_def mount_def riskEffect_keeps PatientDashboard_def)
next
  case (snoc ev events)
  then show ?case
    unfolding run_def foldl_append by (simp add: step_loading)
qed

lemma toggles_while_loading:
  "loading (ui sys) \<Longrightarrow>
   loading (ui (foldl step sys (map Toggle ids))) \<and>
   awaiting (foldl step sys (map Toggle ids)) = awaiting sys \<and>
   filter is_PUT_status (fetch_calls (ui (foldl step sys (map Toggle ids)))) =
     filter is_PUT_status (fetch_calls (ui sys))"
proof (induction ids arbitrary: sys)
  case Nil
  then show ?case by simp
next
  case (Cons patientId ids)
  let ?sys = "step sys (Toggle patientId)"
  from Cons.prems have same: "loading (ui ?sys)" "awaiting ?sys = awaiting sys"
    "filter is_PUT_status (fetch_calls (ui ?sys)) = filter is_PUT_status (fetch_calls (ui sys))"
    by (simp_all add: toggle_blocked riskEffect_keeps)
  from Cons.IH [OF same(1)] same show ?case by simp
qed

text \<open>
  C2. While \<open>loading\<close> is set, any sequence of activations, for whichever patients,
  leaves the state as it is and so sends nothing; an activation for a listed patient in
  the idle state sends one request and sets \<open>loading\<close>, so that activation followed by
  any others amounts to exactly one request. In every state the mounted dashboard can
  reach, at most one toggle request is outstanding, and \<open>loading\<close> is set exactly while
  one is; from such a state any sequence of activations sends no further request for a
  change of status. Each activation reads the state the event before it left.
\<close>

theorem toggle_guard:
  "(loading s \<longrightarrow> fold handlePatientToggle ids s = s)
   \<and> (\<not> loading s \<and> find (\<lambda>p. id_p p = patientId) (patients s) = Some p \<longrightarrow>
        fold handlePatientToggle (patientId # ids) s =
          s\<lparr>loading := True,
            fetch_calls := fetch_calls s @ [PUT_status patientId (\<not> isActive p)]\<rparr>)
   \<and> length (awaiting (run initialPatients events)) \<le> 1
   \<and> (awaiting (run initialPatients events) \<noteq> [] \<longleftrightarrow>
        loading (ui (run initialPatients events)))
   \<and> (awaiting (run initialPatients events) \<noteq> [] \<longrightarrow>
        filter is_PUT_status
          (fetch_calls (ui (run initialPatients (events @ map Toggle ids)))) =
        filter is_PUT_status (fetch_calls (ui (run initialPatients events))))"
proof (intro conjI impI)
  assume "loading s"
  then show "fold handlePatientToggle ids s = s" by (rule toggles_blocked)
next
  assume "\<not> loading s \<and> find (\<lambda>p. id_p p = patientId) (patients s) = Some p"
  then show "fold handlePatientToggle (patientId # ids) s =
      s\<lparr>loading := True, fetch_calls := fetch_calls s @ [PUT_status patientId (\<not> isActive p)]\<rparr>"
    by (simp add: handlePatientToggle_def toggles_blocked)
next
  show "length (awaiting (run initialPatients events)) \<le> 1"
    by (simp add: run_loading)
next
  show "awaiting (run initialPatients events) \<noteq> [] \<longleftrightarrow>
      loading (ui (run initialPatients events))"
    using run_loading [of initialPatients events]
    by (cases "awaiting (run initialPatients events)") (simp_all split: if_splits)
next
  assume "awaiting (run initialPatients events) \<noteq> []"
  with run_loading [of initialPatients events]
  have "loading (ui (run initialPatients events))" by (simp split: if_splits)
  then show "filter is_PUT_status
        (fetch_calls (ui (run initialPatients (events @ map Toggle ids)))) =
      filter is_PUT_status (fetch_calls (ui (run initialPatients events)))"
    unfolding run_def foldl_append by (simp only: toggles_while_loading [folded run_def])
qed

text \<open>
  The test \<open>prevents multiple simultaneous API calls\<close>: three activations in a row of John
  Doe's button send the one request; so do one of Jane Smith's followed by three others.
\<close>

theorem toggle_guard_witness:
  "\<not> loading (PatientDashboard mockPatients)
   \<and> find (\<lambda>p. id_p p = ''1'') (patients (PatientDashboard mockPatients)) = Some john
   \<and> fetch_calls (fold handlePatientToggle [''1'', ''1'', ''1''] (PatientDashboard mockPatients)) =
     [PUT_status ''1'' False]
   \<and> loading (handlePatientToggle ''2'' (PatientDashboard mockPatients))
   \<and> fetch_calls (fold handlePatientToggle [''1'', ''2'', ''1'']
        (handlePatientToggle ''2'' (PatientDashboard mockPatients))) = [PUT_status ''2'' True]
   \<and> awaiting (run mockPatients [Toggle ''1'']) = [(''1'', mockPatients)]
   \<and> fetch_calls (ui (run mockPatients [Toggle ''1'', Toggle ''1'', Toggle ''1''])) =
     [PUT_status ''1'' False]"
proof -
  have third:
    "awaiting (run mockPatients [Toggle ''1'']) = [(''1'', mockPatients)]
     \<and> fetch_calls (ui (run mockPatients [Toggle ''1'', Toggle ''1'', Toggle ''1''])) =
       [PUT_status ''1'' False]"
    by (simp add: run_def mount_def riskEffect_def handlePatientToggle_def PatientDashboard_def
        mockPatients_def john_def jane_def)
  from toggle_guard [of "PatientDashboard mockPatients" "[''1'', ''1'']" "''1''" john
      mockPatients "[Toggle ''1'']"]
    toggle_guard [of "handlePatientToggle ''2'' (PatientDashboard mockPatients)"
      "[''1'', ''2'', ''1'']" "''2''" jane mockPatients "[Toggle ''2'']"]
  have "\<not> loading (PatientDashboard mockPatients)
   \<and> find (\<lambda>p. id_p p = ''1'') (patients (PatientDashboard mockPatients)) = Some john
   \<and> fetch_calls (fold handlePatientToggle [''1'', ''1'', ''1''] (PatientDashboard mockPatients)) =
     [PUT_status ''1'' False]
   \<and> loading (handlePatientToggle ''2'' (PatientDashboard mockPatients))
   \<and> fetch_calls (fold handlePatientToggle [''1'', ''2'', ''1'']
        (handlePatientToggle ''2'' (PatientDashboard mockPatients))) = [PUT_status ''2'' True]"
    by (simp add: PatientDashboard_def mockPatients_def john_def jane_def handlePatientToggle_def)
  with third show ?thesis by simp
qed

subsection \<open>Risk level\<close>

lemma whole_days_more_than:
  "(x :: int) div 86400000 > k \<longleftrightarrow> x \<ge> (k + 1) * 86400000"
proof -
  obtain d where d: "x div 86400000 = d" by simp
  then have "d * 86400000 \<le> x \<and> x < (d + 1) * 86400000" by auto
  then have bounds: "d * 86400000 \<le> x" "x < (d + 1) * 86400000" by simp_all
  have "d > k \<longleftrightarrow> x \<ge> (k + 1) * 86400000"
  proof (cases "d > k")
    case True
    then have "(k + 1) * 86400000 \<le> d * 86400000" by simp
    with bounds True show ?thesis by linarith
  next
    case False
    then have "(d + 1) * 86400000 \<le> (k + 1) * 86400000" by simp
    with bounds False show ?thesis by linarith
  qed
  with d show ?thesis by simp
qed

text \<open>
  C3, as amended. With a risk score \<open>r\<close> the level is high for \<open>r \<ge> 70\<close>, medium for
  \<open>40 \<le> r < 70\<close> and low below, as it is for a score that is \<open>NaN\<close>; scores 65, 70 and
  39 give medium, high and low. With none, and the last visit at time \<open>t\<close>, the days that count are the whole days in
  \<open>now - t\<close>: the level is high from 366 whole days on (more than 365 of them), medium
  from 181 whole days on, and low below. With a last visit that is no date the level is
  low.
\<close>

theorem risk_level_derivation:
  "getPatientRiskLevel now getTime (p\<lparr>riskScore := Some (Some r)\<rparr>) =
     (if r \<ge> 70 then high else if r \<ge> 40 then medium else low)
   \<and> getPatientRiskLevel now getTime (p\<lparr>riskScore := Some None\<rparr>) = low
   \<and> getPatientRiskLevel now getTime (p\<lparr>riskScore := Some (Some 65)\<rparr>) = medium
   \<and> getPatientRiskLevel now getTime (p\<lparr>riskScore := Some (Some 70)\<rparr>) = high
   \<and> getPatientRiskLevel now getTime (p\<lparr>riskScore := Some (Some 39)\<rparr>) = low
   \<and> (getTime (lastVisit p) = Some t \<longrightarrow>
        getPatientRiskLevel now getTime (p\<lparr>riskScore := None\<rparr>) =
          (if (now - t) div 86400000 > 365 then high
           else if (now - t) div 86400000 > 180 then medium
           else low)
      \<and> getPatientRiskLevel now getTime (p\<lparr>riskScore := None\<rparr>) =
          (if now - t \<ge> 366 * 86400000 then high
           else if now - t \<ge> 181 * 86400000 then medium
           else low))
   \<and> (getTime (lastVisit p) = None \<longrightarrow>
        getPatientRiskLevel now getTime (p\<lparr>riskScore := None\<rparr>) = low)"
proof (intro conjI impI)
  assume t: "getTime (lastVisit p) = Some t"
  then show by_days: "getPatientRiskLevel now getTime (p\<lparr>riskScore := None\<rparr>) =
      (if (now - t) div 86400000 > 365 then high
       else if (now - t) div 86400000 > 180 then medium
       else low)"
    by (simp add: getPatientRiskLevel_def gt_number_def daysSinceVisit_def)
  show "getPatientRiskLevel now getTime (p\<lparr>riskScore := None\<rparr>) =
      (if now - t \<ge> 366 * 86400000 then high
       else if now - t \<ge> 181 * 86400000 then medium
       else low)"
    using whole_days_more_than [of 365 "now - t"] whole_days_more_than [of 180 "now - t"]
    by (simp add: by_days)
next
  assume "getTime (lastVisit p) = None"
  then show "getPatientRiskLevel now getTime (p\<lparr>riskScore := None\<rparr>) = low"
    by (simp add: getPatientRiskLevel_def gt_number_def daysSinceVisit_def)
qed (simp_all add: getPatientRiskLevel_def ge_number_def)

text \<open>
  The tests of the suite on the first of March 2024: John Doe with his score of 65, then
  without a score and last seen on the first of January 2023, 425 days before, and
  without a score and with a last visit that is no date.
\<close>

theorem risk_level_derivation_witness:
  "getTime_mock (lastVisit (john\<lparr>lastVisit := ''2023-01-01''\<rparr>)) = Some 1672531200000
   \<and> getTime_mock (lastVisit (john\<lparr>lastVisit := []\<rparr>)) = None
   \<and> getPatientRiskLevel 1709251200000 getTime_mock john = medium
   \<and> getPatientRiskLevel 1709251200000 getTime_mock
        (john\<lparr>riskScore := None, lastVisit := ''2023-01-01''\<rparr>) = high
   \<and> getPatientRiskLevel 1709251200000 getTime_mock
        (john\<lparr>riskScore := None, lastVisit := []\<rparr>) = low"
  using risk_level_derivation [where now = 1709251200000 and getTime = getTime_mock and p = john
      and r = 65 and t = 1705276800000]
    risk_level_derivation [where now = 1709251200000 and getTime = getTime_mock
      and p = "john\<lparr>lastVisit := ''2023-01-01''\<rparr>" and r = 65 and t = 1672531200000]
    risk_level_derivation [where now = 1709251200000 and getTime = getTime_mock
      and p = "john\<lparr>lastVisit := []\<rparr>" and r = 65 and t = 0]
  by (simp add: getTime_mock_def john_def)

text \<open>
  A patient without a score last seen 365 days and 23 hours ago: more than 365 days have
  passed, and the level is medium. One last seen 180 days and 23 hours ago is low.
\<close>

theorem risk_level_counterexample:
  "getTime_mock ''2023-01-01'' = Some 1672531200000
   \<and> (1704150000000 :: int) - 1672531200000 > 365 * 86400000
   \<and> getPatientRiskLevel 1704150000000 getTime_mock
        (john\<lparr>riskScore := None, lastVisit := ''2023-01-01''\<rparr>) = medium
   \<and> (1688166000000 :: int) - 1672531200000 > 180 * 86400000
   \<and> getPatientRiskLevel 1688166000000 getTime_mock
        (john\<lparr>riskScore := None, lastVisit := ''2023-01-01''\<rparr>) = low"
  by (simp add: getPatientRiskLevel_def gt_number_def daysSinceVisit_def getTime_mock_def john_def)

subsection \<open>Filtering and sorting\<close>





lemma matchesSearch_patient_case:
  "toLowerCase lowerCase (name p) = toLowerCase lowerCase (name q) \<Longrightarrow>
   map (toLowerCase lowerCase) (conditions p) = map (toLowerCase lowerCase) (conditions q) \<Longrightarrow>
   matchesSearch lowerCase searchTerm p = matchesSearch lowerCase searchTerm q"
proof -
  assume n: "toLowerCase lowerCase (name p) = toLowerCase lowerCase (name q)"
    and c: "map (toLowerCase lowerCase) (conditions p) = map (toLowerCase lowerCase) (conditions q)"
  have "list_ex (\<lambda>condition. includes_s (toLowerCase lowerCase condition) t) cs \<longleftrightarrow>
        list_ex (\<lambda>l. includes_s l t) (map (toLowerCase lowerCase) cs)" for t cs
    by (simp add: list_ex_iff)
  with n c show ?thesis by (simp add: matchesSearch_def)
qed

lemma mset_sort_insert: "mset (sort_insert order a xs) = add_mset a (mset xs)"
  by (induction xs) simp_all

lemma mset_stable_sort: "mset (stable_sort order xs) = mset xs"
  unfolding stable_sort_def by (induction xs) (simp_all add: mset_sort_insert)

lemma set_stable_sort: "set (stable_sort order xs) = set xs"
proof -
  have "set_mset (mset (stable_sort order xs)) = set_mset (mset xs)"
    by (simp only: mset_stable_sort)
  then show ?thesis by simp
qed

lemma set_sort_insert: "set (sort_insert order a xs) = insert a (set xs)"
  by (induction xs) auto

lemma sorted_sort_insert:
  assumes total: "\<And>x y. x \<in> S \<Longrightarrow> y \<in> S \<Longrightarrow> order x y \<le> 0 \<or> order y x \<le> 0"
    and trans: "\<And>x y z. x \<in> S \<Longrightarrow> y \<in> S \<Longrightarrow> z \<in> S \<Longrightarrow>
             order x y \<le> 0 \<Longrightarrow> order y z \<le> 0 \<Longrightarrow> order x z \<le> 0"
    and "a \<in> S" and "set xs \<subseteq> S"
    and "sorted_wrt (\<lambda>x y. order x y \<le> 0) xs"
  shows "sorted_wrt (\<lambda>x y. order x y \<le> 0) (sort_insert order a xs)"
  using assms(3-5)
proof (induction xs)
  case Nil
  show ?case by simp
next
  case (Cons b bs)
  from Cons.prems have S: "a \<in> S" "b \<in> S" "set bs \<subseteq> S" by auto
  from Cons.prems have b_first: "\<forall>y \<in> set bs. order b y \<le> 0"
    and bs: "sorted_wrt (\<lambda>x y. order x y \<le> 0) bs" by auto
  show ?case
  proof (cases "order a b \<le> 0")
    case True
    have "\<forall>y \<in> set bs. order a y \<le> 0"
    proof
      fix y assume y: "y \<in> set bs"
      with b_first have "order b y \<le> 0" by blast
      with True show "order a y \<le> 0"
        using trans [of a b y] S y by blast
    qed
    with True b_first bs show ?thesis by simp
  next
    case False
    with total [of a b] S have ba: "order b a \<le> 0" by blast
    from S bs have "sorted_wrt (\<lambda>x y. order x y \<le> 0) (sort_insert order a bs)"
      by (intro Cons.IH)
    with False ba b_first show ?thesis
      by (simp add: set_sort_insert)
  qed
qed

lemma sorted_stable_sort:
  assumes total: "\<And>x y. x \<in> set xs \<Longrightarrow> y \<in> set xs \<Longrightarrow> order x y \<le> 0 \<or> order y x \<le> 0"
    and trans: "\<And>x y z. x \<in> set xs \<Longrightarrow> y \<in> set xs \<Longrightarrow> z \<in> set xs \<Longrightarrow>
             order x y \<le> 0 \<Longrightarrow> order y z \<le> 0 \<Longrightarrow> order x z \<le> 0"
  shows "sorted_wrt (\<lambda>x y. order x y \<le> 0) (stable_sort order xs)"
proof -
  have "sorted_wrt (\<lambda>x y. order x y \<le> 0) (stable_sort order ys)" if "set ys \<subseteq> set xs" for ys
    using that
  proof (induction ys)
    case Nil
    show ?case by (simp add: stable_sort_def)
  next
    case (Cons a ys)
    then have "a \<in> set xs" and "set (stable_sort order ys) \<subseteq> set xs"
      and "sorted_wrt (\<lambda>x y. order x y \<le> 0) (stable_sort order ys)"
      by (auto simp: set_stable_sort)
    with total trans
    have "sorted_wrt (\<lambda>x y. order x y \<le> 0) (sort_insert order a (stable_sort order ys))"
      by (rule sorted_sort_insert)
    then show ?case by (simp add: stable_sort_def)
  qed
  then show ?thesis by simp
qed

lemma consistent_iff:
  "consistent compare xs \<longleftrightarrow>
     (\<forall>a \<in> set xs. \<forall>b \<in> set xs. compare a b \<noteq> None)
     \<and> (\<forall>a \<in> set xs. order_of (compare a a) = 0)
     \<and> (\<forall>a \<in> set xs. \<forall>b \<in> set xs.
          order_of (compare a b) = 0 \<longrightarrow> order_of (compare b a) = 0)
     \<and> (\<forall>a \<in> set xs. \<forall>b \<in> set xs. \<forall>c \<in> set xs.
          (order_of (compare a b) = 0 \<and> order_of (compare b c) = 0 \<longrightarrow>
             order_of (compare a c) = 0)
        \<and> (order_of (compare a b) < 0 \<and> order_of (compare b c) < 0 \<longrightarrow>
             order_of (compare a c) < 0)
        \<and> (order_of (compare a b) > 0 \<and> order_of (compare b c) > 0 \<longrightarrow>
             order_of (compare a c) > 0))"
  unfolding consistent_def list_all_iff ..

lemma consistent_subset:
  assumes "consistent compare xs" and "set ys \<subseteq> set xs"
  shows "consistent compare ys"
proof -
  from assms(2) have "y \<in> set xs" if "y \<in> set ys" for y using that by blast
  with assms(1) show ?thesis
    unfolding consistent_iff by (intro conjI ballI) blast+
qed

lemma consistent_comes_after:
  assumes "consistent compare xs" and "a \<in> set xs" and "b \<in> set xs"
    and "order_of (compare a b) < 0"
  shows "order_of (compare b a) > 0"
proof (rule ccontr)
  assume "\<not> order_of (compare b a) > 0"
  then consider "order_of (compare b a) < 0" | "order_of (compare b a) = 0" by linarith
  then show False
  proof cases
    case 1
    with assms have "order_of (compare a a) < 0" unfolding consistent_iff by blast
    moreover from assms have "order_of (compare a a) = 0" unfolding consistent_iff by blast
    ultimately show False by simp
  next
    case 2
    with assms have "order_of (compare a b) = 0" unfolding consistent_iff by blast
    with assms(4) show False by simp
  qed
qed

lemma consistent_total:
  assumes "consistent compare xs" and "a \<in> set xs" and "b \<in> set xs"
  shows "order_of (compare a b) \<le> 0 \<or> order_of (compare b a) \<le> 0"
proof (rule ccontr)
  assume "\<not> (order_of (compare a b) \<le> 0 \<or> order_of (compare b a) \<le> 0)"
  then have "order_of (compare a b) > 0" "order_of (compare b a) > 0" by simp_all
  with assms have "order_of (compare a a) > 0" unfolding consistent_iff by blast
  moreover from assms have "order_of (compare a a) = 0" unfolding consistent_iff by blast
  ultimately show False by simp
qed

lemma consistent_trans:
  assumes c: "consistent compare xs" and in_xs: "x \<in> set xs" "y \<in> set xs" "z \<in> set xs"
    and xy: "order_of (compare x y) \<le> 0" and yz: "order_of (compare y z) \<le> 0"
  shows "order_of (compare x z) \<le> 0"
proof (rule ccontr)
  assume "\<not> order_of (compare x z) \<le> 0"
  then have xz: "order_of (compare x z) > 0" by simp
  from xy consider "order_of (compare x y) < 0" | "order_of (compare x y) = 0" by linarith
  then show False
  proof cases
    case 1
    from yz consider "order_of (compare y z) < 0" | "order_of (compare y z) = 0" by linarith
    then show False
    proof cases
      case less: 1
      with \<open>order_of (compare x y) < 0\<close> c in_xs have "order_of (compare x z) < 0"
        unfolding consistent_iff by blast
      with xz show False by simp
    next
      case 2
      from c in_xs \<open>order_of (compare x y) < 0\<close> have "order_of (compare y x) > 0"
        by (intro consistent_comes_after)
      with xz c in_xs have "order_of (compare y z) > 0"
        unfolding consistent_iff by blast
      with 2 show False by simp
    qed
  next
    case 2
    with c in_xs have yx: "order_of (compare y x) = 0" unfolding consistent_iff by blast
    from yz consider "order_of (compare y z) < 0" | "order_of (compare y z) = 0" by linarith
    then show False
    proof cases
      case less: 1
      with c in_xs have "order_of (compare z y) > 0" by (intro consistent_comes_after)
      with xz c in_xs have "order_of (compare x y) > 0"
        unfolding consistent_iff by blast
      with 2 show False by simp
    next
      case eq: 2
      with 2 c in_xs have "order_of (compare x z) = 0" unfolding consistent_iff by blast
      with xz show False by simp
    qed
  qed
qed

lemma sorted_array_sort:
  assumes "consistent compare xs"
  shows "sorted_wrt (\<lambda>a b. order_of (compare a b) \<le> 0) (array_sort engine compare xs)"
proof -
  have "sorted_wrt (\<lambda>a b. order_of (compare a b) \<le> 0)
          (stable_sort (\<lambda>a b. order_of (compare a b)) xs)"
  proof (rule sorted_stable_sort)
    fix x y assume "x \<in> set xs" "y \<in> set xs"
    with assms show "order_of (compare x y) \<le> 0 \<or> order_of (compare y x) \<le> 0"
      by (rule consistent_total)
  next
    fix x y z assume "x \<in> set xs" "y \<in> set xs" "z \<in> set xs"
      "order_of (compare x y) \<le> 0" "order_of (compare y z) \<le> 0"
    with assms show "order_of (compare x z) \<le> 0"
      by (rule consistent_trans)
  qed
  with assms show ?thesis by (simp add: array_sort_def)
qed

lemma mset_array_sort:
  "consistent compare xs \<or> mset (engine compare xs) = mset xs \<Longrightarrow>
   mset (array_sort engine compare xs) = mset xs"
  by (auto simp: array_sort_def mset_stable_sort)

lemma consistent_difference:
  assumes "\<forall>a \<in> set xs. key a \<noteq> None"
  shows "consistent (\<lambda>a b. minus_number (key a) (key b)) xs"
proof -
  have diff: "minus_number (key a) (key b) = Some (the (key a) - the (key b))"
    if "a \<in> set xs" "b \<in> set xs" for a b
  proof -
    from that assms have "key a \<noteq> None" "key b \<noteq> None" by blast+
    then obtain x y where "key a = Some x" "key b = Some y" by blast
    then show ?thesis by (simp add: minus_number_def)
  qed
  show ?thesis
    unfolding consistent_iff
    by (intro conjI ballI) (simp_all add: diff order_of_def)
qed

lemma sorted_by_key:
  assumes "\<forall>a \<in> set xs. key a \<noteq> None"
  shows "sorted_wrt (\<lambda>a b. le_number (key a) (key b))
           (array_sort engine (\<lambda>a b. minus_number (key a) (key b)) xs)"
proof -
  let ?c = "\<lambda>a b. minus_number (key a) (key b)"
  from assms have c: "consistent ?c xs" by (rule consistent_difference)
  then have sorted: "sorted_wrt (\<lambda>a b. order_of (?c a b) \<le> 0) (array_sort engine ?c xs)"
    by (rule sorted_array_sort)
  from c have elems: "set (array_sort engine ?c xs) = set xs"
    by (simp add: array_sort_def set_stable_sort)
  show ?thesis
  proof (rule sorted_wrt_mono_rel [OF _ sorted])
    fix a b assume "a \<in> set (array_sort engine ?c xs)" "b \<in> set (array_sort engine ?c xs)"
      and le: "order_of (?c a b) \<le> 0"
    with elems have "a \<in> set xs" "b \<in> set xs" by simp_all
    with assms have "key a \<noteq> None" "key b \<noteq> None" by blast+
    then obtain x y where "key a = Some x" "key b = Some y" by blast
    with le show "le_number (key a) (key b)"
      by (simp add: le_number_def minus_number_def order_of_def)
  qed
qed

lemma nan_never_ordered:
  assumes "sorted_wrt (\<lambda>a b. le_number (key a) (key b)) ys" and "2 \<le> length ys"
    and "p \<in> set ys"
  shows "key p \<noteq> None"
proof
  assume nan: "key p = None"
  from assms(3) obtain i where i: "i < length ys" "ys ! i = p" by (auto simp: in_set_conv_nth)
  from assms(2) i obtain j where j: "j < length ys" "j \<noteq> i"
    by (cases "i = 0") (auto intro: that [of 0] that [of 1])
  then consider "i < j" | "j < i" by linarith
  then show False
  proof cases
    case 1
    from assms(1) 1 j(1) have "le_number (key (ys ! i)) (key (ys ! j))"
      by (rule sorted_wrt_nth_less)
    with i nan show False by (simp add: le_number_def)
  next
    case 2
    from assms(1) 2 i(1) have "le_number (key (ys ! j)) (key (ys ! i))"
      by (rule sorted_wrt_nth_less)
    with i nan show False by (simp add: le_number_def split: option.splits)
  qed
qed

lemma mset_filteredPatients:
  "consistent (comparePatients localeCompare getTime sortBy)
     (filter (matchesSearch lowerCase searchTerm) allPatients) \<or>
   mset (engine (comparePatients localeCompare getTime sortBy)
     (filter (matchesSearch lowerCase searchTerm) allPatients)) =
   mset (filter (matchesSearch lowerCase searchTerm) allPatients) \<Longrightarrow>
   mset (filteredPatients engine lowerCase localeCompare getTime searchTerm sortBy allPatients) =
     mset (filter (matchesSearch lowerCase searchTerm) allPatients)"
  unfolding filteredPatients_def by (rule mset_array_sort)



lemma search_by_name: "filter (matchesSearch lowerCase_mock ''John'') mockPatients = [john]"
  by code_simp







lemma v8_examples:
  "engine_mock (\<lambda>a b. minus_number a b) [Some 3, Some 1, Some 2] = [Some 1, Some 2, Some 3]"
  "engine_mock (\<lambda>a b. minus_number a b) [Some 3, Some 2, Some 1] = [Some 1, Some 2, Some 3]"
  "engine_mock (\<lambda>a b. minus_number a b) [Some 35, None, Some 20] = [Some 35, None, Some 20]"
  "engine_mock (\<lambda>a b. minus_number a b) [Some 2, None, Some 1, Some 0]
     = [Some 2, None, Some 0, Some 1]"
  by code_simp+



lemma comparePatients_name:
  "comparePatients localeCompare getTime SortName =
     (\<lambda>a b. Some (localeCompare (name a) (name b)))"
  by (simp add: comparePatients_def fun_eq_iff)

lemma comparePatients_age:
  "comparePatients localeCompare getTime SortAge = (\<lambda>a b. minus_number (age a) (age b))"
  by (simp add: comparePatients_def fun_eq_iff)

lemma comparePatients_lastVisit:
  "comparePatients localeCompare getTime SortLastVisit =
     (\<lambda>a b. minus_number (getTime (lastVisit a)) (getTime (lastVisit b)))"
  by (simp add: comparePatients_def fun_eq_iff)

lemma sorted_by_name:
  assumes "consistent (\<lambda>a b. Some (localeCompare (name a) (name b))) ps"
  shows "sorted_wrt (\<lambda>a b. localeCompare (name a) (name b) \<le> 0)
           (filteredPatients engine lowerCase localeCompare getTime searchTerm SortName ps)"
proof -
  let ?xs = "filter (matchesSearch lowerCase searchTerm) ps"
  let ?c = "\<lambda>a b. Some (localeCompare (name a) (name b))"
  have "set ?xs \<subseteq> set ps" by simp
  with assms have "consistent ?c ?xs" by (rule consistent_subset)
  then have "sorted_wrt (\<lambda>a b. order_of (?c a b) \<le> 0) (array_sort engine ?c ?xs)"
    by (rule sorted_array_sort)
  then show ?thesis
    by (simp add: filteredPatients_def comparePatients_name order_of_def)
qed

lemma sorted_lexicographically:
  assumes "consistent (\<lambda>a b. Some (localeCompare (name a) (name b))) ps"
    and agree: "\<forall>a \<in> set ps. \<forall>b \<in> set ps.
                  localeCompare (name a) (name b) \<le> 0 \<longleftrightarrow> name a \<le> name b"
  shows "sorted_wrt (\<lambda>a b. name a \<le> name b)
           (filteredPatients engine lowerCase localeCompare getTime searchTerm SortName ps)"
proof -
  let ?ys = "filteredPatients engine lowerCase localeCompare getTime searchTerm SortName ps"
  let ?xs = "filter (matchesSearch lowerCase searchTerm) ps"
  have "set ?xs \<subseteq> set ps" by simp
  with assms(1) have "consistent (comparePatients localeCompare getTime SortName) ?xs"
    unfolding comparePatients_name by (rule consistent_subset)
  then have "mset ?ys = mset ?xs" by (intro mset_filteredPatients disjI1)
  then have "set ?ys = set ?xs" by (rule mset_eq_setD)
  then have elems: "set ?ys \<subseteq> set ps" by simp
  from assms(1) have sorted: "sorted_wrt (\<lambda>a b. localeCompare (name a) (name b) \<le> 0) ?ys"
    by (rule sorted_by_name)
  show ?thesis
  proof (rule sorted_wrt_mono_rel [OF _ sorted])
    fix a b assume "a \<in> set ?ys" "b \<in> set ?ys" "localeCompare (name a) (name b) \<le> 0"
    with elems agree show "name a \<le> name b" by blast
  qed
qed

lemma sorted_by_age:
  assumes "\<forall>p \<in> set ps. age p \<noteq> None"
  shows "sorted_wrt (\<lambda>a b. le_number (age a) (age b))
           (filteredPatients engine lowerCase localeCompare getTime searchTerm SortAge ps)"
proof -
  from assms have "\<forall>p \<in> set (filter (matchesSearch lowerCase searchTerm) ps). age p \<noteq> None"
    by simp
  then show ?thesis
    unfolding filteredPatients_def comparePatients_age by (rule sorted_by_key)
qed

lemma sorted_by_lastVisit:
  assumes "\<forall>p \<in> set ps. getTime (lastVisit p) \<noteq> None"
  shows "sorted_wrt (\<lambda>a b. le_number (getTime (lastVisit a)) (getTime (lastVisit b)))
           (filteredPatients engine lowerCase localeCompare getTime searchTerm SortLastVisit ps)"
proof -
  from assms
  have "\<forall>p \<in> set (filter (matchesSearch lowerCase searchTerm) ps). getTime (lastVisit p) \<noteq> None"
    by simp
  then show ?thesis
    unfolding filteredPatients_def comparePatients_lastVisit
    by (rule sorted_by_key [where key = "\<lambda>p. getTime (lastVisit p)"])
qed

text \<open>
  C5, as amended. By name, the displayed list is in the order of \<open>localeCompare\<close>,
  provided \<open>localeCompare\<close> is a consistent comparator on the names of the list; it is in
  the lexicographic order of the names, character by character in the order of their
  codes, where \<open>localeCompare\<close> agrees with that order on the names of the list. By age it
  is in ascending order provided no age is \<open>NaN\<close>, and by last visit in ascending order of
  time provided the last visit of every patient is a date the runtime can read. The two
  provisos cannot be spared: whatever the engine does, a displayed list of two patients
  or more that is in order does not hold a patient whose age is \<open>NaN\<close>, or whose last
  visit is no date.
\<close>

theorem displayed_order:
  "(consistent (\<lambda>a b. Some (localeCompare (name a) (name b))) ps \<longrightarrow>
      sorted_wrt (\<lambda>a b. localeCompare (name a) (name b) \<le> 0)
        (filteredPatients engine lowerCase localeCompare getTime searchTerm SortName ps)
    \<and> ((\<forall>a \<in> set ps. \<forall>b \<in> set ps.
           localeCompare (name a) (name b) \<le> 0 \<longleftrightarrow> name a \<le> name b) \<longrightarrow>
        sorted_wrt (\<lambda>a b. name a \<le> name b)
          (filteredPatients engine lowerCase localeCompare getTime searchTerm SortName ps)))
   \<and> ((\<forall>p \<in> set ps. age p \<noteq> None) \<longrightarrow>
      sorted_wrt (\<lambda>a b. le_number (age a) (age b))
        (filteredPatients engine lowerCase localeCompare getTime searchTerm SortAge ps))
   \<and> ((\<forall>p \<in> set ps. getTime (lastVisit p) \<noteq> None) \<longrightarrow>
      sorted_wrt (\<lambda>a b. le_number (getTime (lastVisit a)) (getTime (lastVisit b)))
        (filteredPatients engine lowerCase localeCompare getTime searchTerm SortLastVisit ps))
   \<and> (sorted_wrt (\<lambda>a b. le_number (age a) (age b))
        (filteredPatients engine lowerCase localeCompare getTime searchTerm SortAge ps) \<and>
       2 \<le> length (filteredPatients engine lowerCase localeCompare getTime searchTerm SortAge ps)
       \<longrightarrow>
      (\<forall>p \<in> set (filteredPatients engine lowerCase localeCompare getTime searchTerm SortAge ps).
         age p \<noteq> None))
   \<and> (sorted_wrt (\<lambda>a b. le_number (getTime (lastVisit a)) (getTime (lastVisit b)))
        (filteredPatients engine lowerCase localeCompare getTime searchTerm SortLastVisit ps) \<and>
       2 \<le> length
         (filteredPatients engine lowerCase localeCompare getTime searchTerm SortLastVisit ps)
       \<longrightarrow>
      (\<forall>p \<in> set
         (filteredPatients engine lowerCase localeCompare getTime searchTerm SortLastVisit ps).
         getTime (lastVisit p) \<noteq> None))"
proof (intro conjI impI ballI)
  assume c: "consistent (\<lambda>a b. Some (localeCompare (name a) (name b))) ps"
  then show "sorted_wrt (\<lambda>a b. localeCompare (name a) (name b) \<le> 0)
      (filteredPatients engine lowerCase localeCompare getTime searchTerm SortName ps)"
    by (rule sorted_by_name)
  assume "\<forall>a \<in> set ps. \<forall>b \<in> set ps.
      localeCompare (name a) (name b) \<le> 0 \<longleftrightarrow> name a \<le> name b"
  with c show "sorted_wrt (\<lambda>a b. name a \<le> name b)
      (filteredPatients engine lowerCase localeCompare getTime searchTerm SortName ps)"
    by (rule sorted_lexicographically)
next
  assume "\<forall>p \<in> set ps. age p \<noteq> None"
  then show "sorted_wrt (\<lambda>a b. le_number (age a) (age b))
      (filteredPatients engine lowerCase localeCompare getTime searchTerm SortAge ps)"
    by (rule sorted_by_age)
next
  assume "\<forall>p \<in> set ps. getTime (lastVisit p) \<noteq> None"
  then show "sorted_wrt (\<lambda>a b. le_number (getTime (lastVisit a)) (getTime (lastVisit b)))
      (filteredPatients engine lowerCase localeCompare getTime searchTerm SortLastVisit ps)"
    by (rule sorted_by_lastVisit)
next
  fix p
  assume "sorted_wrt (\<lambda>a b. le_number (age a) (age b))
        (filteredPatients engine lowerCase localeCompare getTime searchTerm SortAge ps) \<and>
       2 \<le> length (filteredPatients engine lowerCase localeCompare getTime searchTerm SortAge ps)"
    and "p \<in> set (filteredPatients engine lowerCase localeCompare getTime searchTerm SortAge ps)"
  then show "age p \<noteq> None"
    by (intro nan_never_ordered [where key = age]) (erule conjunct1, erule conjunct2)
next
  fix p
  assume "sorted_wrt (\<lambda>a b. le_number (getTime (lastVisit a)) (getTime (lastVisit b)))
        (filteredPatients engine lowerCase localeCompare getTime searchTerm SortLastVisit ps) \<and>
       2 \<le> length
         (filteredPatients engine lowerCase localeCompare getTime searchTerm SortLastVisit ps)"
    and "p \<in> set
         (filteredPatients engine lowerCase localeCompare getTime searchTerm SortLastVisit ps)"
  then show "getTime (lastVisit p) \<noteq> None"
    by (intro nan_never_ordered [where key = "\<lambda>p. getTime (lastVisit p)"])
      (erule conjunct1, erule conjunct2)
qed

lemma mock_names_consistent:
  "consistent (\<lambda>a b. Some (localeCompare_mock (name a) (name b))) mockPatients"
  by code_simp

lemma mock_names_agree:
  "list_all (\<lambda>a. list_all (\<lambda>b.
      (localeCompare_mock (name a) (name b) \<le> 0) = (name a \<le> name b)) mockPatients)
    mockPatients"
  by code_simp

lemma mock_ages_and_dates:
  "list_all (\<lambda>p. age p \<noteq> None) mockPatients"
  "list_all (\<lambda>p. getTime_mock (lastVisit p) \<noteq> None) mockPatients"
  by code_simp+

lemma mock_displayed:
  "filteredPatients engine_mock lowerCase_mock localeCompare_mock getTime_mock [] SortName
     mockPatients = [jane, john]"
  "filteredPatients engine_mock lowerCase_mock localeCompare_mock getTime_mock [] SortAge
     mockPatients = [jane, john]"
  "filteredPatients engine_mock lowerCase_mock localeCompare_mock getTime_mock [] SortLastVisit
     mockPatients = [john, jane]"
  by code_simp+

text \<open>
  The three sorting tests of the suite: Jane Smith comes first by name and by age, John
  Doe by last visit.
\<close>

theorem displayed_order_witness:
  "consistent (\<lambda>a b. Some (localeCompare_mock (name a) (name b))) mockPatients
   \<and> list_all (\<lambda>a. list_all (\<lambda>b.
        (localeCompare_mock (name a) (name b) \<le> 0) = (name a \<le> name b)) mockPatients)
      mockPatients
   \<and> list_all (\<lambda>p. age p \<noteq> None) mockPatients
   \<and> list_all (\<lambda>p. getTime_mock (lastVisit p) \<noteq> None) mockPatients
   \<and> filteredPatients engine_mock lowerCase_mock localeCompare_mock getTime_mock [] SortName
        mockPatients = [jane, john]
   \<and> sorted_wrt (\<lambda>a b. name a \<le> name b) [jane, john]
   \<and> filteredPatients engine_mock lowerCase_mock localeCompare_mock getTime_mock [] SortAge
        mockPatients = [jane, john]
   \<and> sorted_wrt (\<lambda>a b. le_number (age a) (age b)) [jane, john]
   \<and> filteredPatients engine_mock lowerCase_mock localeCompare_mock getTime_mock [] SortLastVisit
        mockPatients = [john, jane]
   \<and> sorted_wrt (\<lambda>a b. le_number (getTime_mock (lastVisit a)) (getTime_mock (lastVisit b)))
        [john, jane]"
proof -
  note order = displayed_order [where ps = mockPatients and engine = engine_mock
      and lowerCase = lowerCase_mock and localeCompare = localeCompare_mock
      and getTime = getTime_mock and searchTerm = "[]"]
  have "sorted_wrt (\<lambda>a b. name a \<le> name b)
      (filteredPatients engine_mock lowerCase_mock localeCompare_mock getTime_mock [] SortName
        mockPatients)"
    using mock_names_consistent mock_names_agree [unfolded list_all_iff]
    by (intro order [THEN conjunct1, THEN mp, THEN conjunct2, THEN mp])
  moreover have "sorted_wrt (\<lambda>a b. le_number (age a) (age b))
      (filteredPatients engine_mock lowerCase_mock localeCompare_mock getTime_mock [] SortAge
        mockPatients)"
    using mock_ages_and_dates(1) [unfolded list_all_iff]
    by (intro order [THEN conjunct2, THEN conjunct1, THEN mp])
  moreover have
    "sorted_wrt (\<lambda>a b. le_number (getTime_mock (lastVisit a)) (getTime_mock (lastVisit b)))
      (filteredPatients engine_mock lowerCase_mock localeCompare_mock getTime_mock []
        SortLastVisit mockPatients)"
    using mock_ages_and_dates(2) [unfolded list_all_iff]
    by (intro order [THEN conjunct2, THEN conjunct2, THEN conjunct1, THEN mp])
  ultimately show ?thesis
    using mock_names_consistent mock_names_agree mock_ages_and_dates mock_displayed
    by (simp only: mock_displayed simp_thms)
qed

text \<open>
  By name, de Vries is displayed before Smith, against the order of the character codes.
  A last visit that is no date, and an age that is \<open>NaN\<close>, compare as equal to every
  other, and the sort leaves March before January, and 35 before 20, around it.
\<close>

theorem displayed_order_counterexample:
  "map name (filteredPatients engine_mock lowerCase_mock localeCompare_mock getTime_mock []
      SortName [jane\<lparr>name := ''Smith''\<rparr>, john\<lparr>name := ''de Vries''\<rparr>]) =
     [''de Vries'', ''Smith'']
   \<and> \<not> ''de Vries'' \<le> ''Smith''
   \<and> map lastVisit (filteredPatients engine_mock lowerCase_mock localeCompare_mock getTime_mock
      [] SortLastVisit
      [john\<lparr>lastVisit := ''2024-03-01''\<rparr>, jane\<lparr>lastVisit := []\<rparr>,
       john\<lparr>id_p := ''3'', lastVisit := ''2024-01-01''\<rparr>]) =
     [''2024-03-01'', [], ''2024-01-01'']
   \<and> \<not> le_number (getTime_mock ''2024-03-01'') (getTime_mock ''2024-01-01'')
   \<and> map age (filteredPatients engine_mock lowerCase_mock localeCompare_mock getTime_mock []
      SortAge [john, jane\<lparr>age := None\<rparr>, john\<lparr>id_p := ''3'', age := Some 20\<rparr>]) =
     [Some 35, None, Some 20]
   \<and> \<not> le_number (Some 35) (Some 20)"
  by code_simp

end
